theory Spec2Isabelle
  imports Main "HOL-Library.Word" "HOL-Library.Sublist"
begin

section \<open>JavaScript values\<close>

text \<open>
  A JavaScript string is a sequence of 16-bit code units, a \<open>Uint8Array\<close> a sequence of
  bytes. \<open>length\<close> of a string counts code units, as \<open>String.prototype.length\<close> does.
\<close>

type_synonym byte = "8 word"
type_synonym bytes = "byte list"
type_synonym jsstring = "16 word list"

text \<open>A string literal of the source, written with ASCII characters.\<close>

definition js :: "string \<Rightarrow> jsstring" where
  "js s = map (\<lambda>c. of_nat (of_char c)) s"

text \<open>\<open>String.fromCharCode(...bytes)\<close>: one code unit per byte.\<close>

definition fromCharCode :: "bytes \<Rightarrow> jsstring" where
  "fromCharCode bs = map ucast bs"

text \<open>\<open>Uint8Array.from(s, c => c.charCodeAt(0))\<close>: every code unit is reduced modulo 256.\<close>

definition charCodes :: "jsstring \<Rightarrow> bytes" where
  "charCodes s = map ucast s"

text \<open>\<open>TypedArray.prototype.slice(a, b)\<close> for \<open>0 \<le> a \<le> b\<close>; both ends are clamped.\<close>

definition slice :: "nat \<Rightarrow> nat \<Rightarrow> 'a list \<Rightarrow> 'a list" where
  "slice a b xs = take (b - a) (drop a xs)"

subsection \<open>String methods\<close>

text \<open>\<open>s.includes(t)\<close>: \<open>t\<close> occurs in \<open>s\<close> as a contiguous run of code units.\<close>

fun str_includes :: "'a list \<Rightarrow> 'a list \<Rightarrow> bool" where
  "str_includes [] t = (t = [])"
| "str_includes (c # s) t = (prefix t (c # s) \<or> str_includes s t)"

text \<open>
  \<open>s.replace(pat, rep)\<close> with a string pattern: only the first occurrence of \<open>pat\<close>,
  wherever it stands, is replaced. (\<open>rep\<close> has no \<open>$\<close> pattern in the source.)
\<close>

fun replace :: "'a list \<Rightarrow> 'a list \<Rightarrow> 'a list \<Rightarrow> 'a list" where
  "replace pat rep [] = (if pat = [] then rep else [])"
| "replace pat rep (c # s) =
     (if prefix pat (c # s) then rep @ drop (length pat) (c # s)
      else c # replace pat rep s)"

text \<open>
  \<open>s.trim()\<close> removes the leading and trailing code units that are WhiteSpace or
  LineTerminator in ECMAScript.
\<close>

definition is_space :: "16 word \<Rightarrow> bool" where
  "is_space c \<longleftrightarrow>
     c \<in> {0x9, 0xA, 0xB, 0xC, 0xD, 0x20, 0xA0, 0x1680, 0x2028, 0x2029, 0x202F, 0x205F,
          0x3000, 0xFEFF} \<or> (0x2000 \<le> c \<and> c \<le> 0x200A)"

definition trim :: "jsstring \<Rightarrow> jsstring" where
  "trim s = rev (dropWhile is_space (rev (dropWhile is_space s)))"

section \<open>Text encoding\<close>

subsection \<open>UTF-16 code units and scalar values\<close>

definition is_high :: "nat \<Rightarrow> bool" where
  "is_high c \<longleftrightarrow> 0xD800 \<le> c \<and> c \<le> 0xDBFF"

definition is_low :: "nat \<Rightarrow> bool" where
  "is_low c \<longleftrightarrow> 0xDC00 \<le> c \<and> c \<le> 0xDFFF"

text \<open>
  The conversion of a string to scalar values that \<open>TextEncoder.encode\<close> applies to its
  argument: a surrogate pair is one scalar value, a surrogate that is not part of a pair
  becomes U+FFFD.
\<close>

fun scalars :: "nat list \<Rightarrow> nat list" where
  "scalars [] = []"
| "scalars [c] = (if is_high c \<or> is_low c then [0xFFFD] else [c])"
| "scalars (c # d # r) =
     (if is_high c then
        (if is_low d then (0x10000 + (c - 0xD800) * 0x400 + (d - 0xDC00)) # scalars r
         else 0xFFFD # scalars (d # r))
      else if is_low c then 0xFFFD # scalars (d # r)
      else c # scalars (d # r))"

text \<open>A string is well formed when no surrogate stands outside a pair.\<close>

fun well_formed_units :: "nat list \<Rightarrow> bool" where
  "well_formed_units [] = True"
| "well_formed_units [c] = (\<not> is_high c \<and> \<not> is_low c)"
| "well_formed_units (c # d # r) =
     (if is_high c then is_low d \<and> well_formed_units r
      else \<not> is_low c \<and> well_formed_units (d # r))"

definition well_formed :: "jsstring \<Rightarrow> bool" where
  "well_formed s = well_formed_units (map unat s)"

text \<open>The code units of one code point.\<close>

definition units_of :: "nat \<Rightarrow> nat list" where
  "units_of cp =
     (if cp < 0x10000 then [cp]
      else [0xD800 + (cp - 0x10000) div 0x400, 0xDC00 + (cp - 0x10000) mod 0x400])"

subsection \<open>UTF-8\<close>

definition utf8_of :: "nat \<Rightarrow> nat list" where
  "utf8_of cp =
     (if cp < 0x80 then [cp]
      else if cp < 0x800 then [0xC0 + cp div 64, 0x80 + cp mod 64]
      else if cp < 0x10000 then [0xE0 + cp div 4096, 0x80 + cp div 64 mod 64, 0x80 + cp mod 64]
      else [0xF0 + cp div 262144, 0x80 + cp div 4096 mod 64, 0x80 + cp div 64 mod 64,
            0x80 + cp mod 64])"

text \<open>
  The UTF-8 decoder of the Encoding Standard with error mode replacement. The state is
  the code point read so far, the number of continuation bytes still needed, and the
  bounds on the next continuation byte. A byte that cannot continue a sequence ends it
  with U+FFFD and is then read again as a leading byte.
\<close>

fun utf8_decode :: "nat \<Rightarrow> nat \<Rightarrow> nat \<Rightarrow> nat \<Rightarrow> nat list \<Rightarrow> nat list" where
  "utf8_decode cp need lo hi [] = (if need \<noteq> 0 then [0xFFFD] else [])"
| "utf8_decode cp need lo hi (b # bs) =
     (if need \<noteq> 0 \<and> lo \<le> b \<and> b \<le> hi then
        (if need = 1 then (cp * 64 + b mod 64) # utf8_decode 0 0 0x80 0xBF bs
         else utf8_decode (cp * 64 + b mod 64) (need - 1) 0x80 0xBF bs)
      else
        (if need \<noteq> 0 then [0xFFFD] else []) @
        (if b \<le> 0x7F then b # utf8_decode 0 0 0x80 0xBF bs
         else if 0xC2 \<le> b \<and> b \<le> 0xDF then utf8_decode (b mod 32) 1 0x80 0xBF bs
         else if 0xE0 \<le> b \<and> b \<le> 0xEF then
           utf8_decode (b mod 16) 2 (if b = 0xE0 then 0xA0 else 0x80)
             (if b = 0xED then 0x9F else 0xBF) bs
         else if 0xF0 \<le> b \<and> b \<le> 0xF4 then
           utf8_decode (b mod 8) 3 (if b = 0xF0 then 0x90 else 0x80)
             (if b = 0xF4 then 0x8F else 0xBF) bs
         else 0xFFFD # utf8_decode 0 0 0x80 0xBF bs))"

text \<open>\<open>new TextEncoder().encode(s)\<close>.\<close>

definition TextEncoder_encode :: "jsstring \<Rightarrow> bytes" where
  "TextEncoder_encode s = map of_nat (concat (map utf8_of (scalars (map unat s))))"

text \<open>
  \<open>new TextDecoder().decode(buffer)\<close>: UTF-8, not fatal, and \<open>ignoreBOM\<close> is false, so a
  byte order mark U+FEFF at the start of the decoded text is removed.
\<close>

fun strip_bom :: "nat list \<Rightarrow> nat list" where
  "strip_bom [] = []"
| "strip_bom (c # r) = (if c = 0xFEFF then r else c # r)"

definition TextDecoder_decode :: "bytes \<Rightarrow> jsstring" where
  "TextDecoder_decode bs =
     map of_nat (concat (map units_of (strip_bom (utf8_decode 0 0 0x80 0xBF (map unat bs)))))"

subsection \<open>Base64\<close>

text \<open>The characters of the base64 alphabet, by their six-bit value, and back.\<close>

definition b64_char :: "nat \<Rightarrow> nat" where
  "b64_char n =
     (if n < 26 then 65 + n else if n < 52 then 71 + n else if n < 62 then n - 4
      else if n = 62 then 43 else 47)"

definition b64_value :: "nat \<Rightarrow> nat option" where
  "b64_value c =
     (if 65 \<le> c \<and> c \<le> 90 then Some (c - 65)
      else if 97 \<le> c \<and> c \<le> 122 then Some (c - 71)
      else if 48 \<le> c \<and> c \<le> 57 then Some (c + 4)
      else if c = 43 then Some 62
      else if c = 47 then Some 63
      else None)"

fun sextets :: "nat list \<Rightarrow> nat list" where
  "sextets (a # b # c # r) =
     [a div 4, a mod 4 * 16 + b div 16, b mod 16 * 4 + c div 64, c mod 64] @ sextets r"
| "sextets [a, b] = [a div 4, a mod 4 * 16 + b div 16, b mod 16 * 4]"
| "sextets [a] = [a div 4, a mod 4 * 16]"
| "sextets [] = []"

fun octets :: "nat list \<Rightarrow> nat list" where
  "octets (a # b # c # d # r) =
     [a * 4 + b div 16, b mod 16 * 16 + c div 4, c mod 4 * 64 + d] @ octets r"
| "octets [a, b, c] = [a * 4 + b div 16, b mod 16 * 16 + c div 4]"
| "octets [a, b] = [a * 4 + b div 16]"
| "octets [a] = []"
| "octets [] = []"

text \<open>
  \<open>btoa(s)\<close> throws InvalidCharacterError (here \<open>None\<close>) when a code unit of \<open>s\<close> is above
  0xFF; otherwise the bytes are encoded and padded with \<open>=\<close> to a multiple of four.
\<close>

definition btoa :: "jsstring \<Rightarrow> jsstring option" where
  "btoa s =
     (if \<exists>c \<in> set s. 0xFF < c then None
      else Some (map of_nat (map b64_char (sextets (map unat s)) @
                 replicate ((3 - length s mod 3) mod 3) 61)))"

text \<open>
  \<open>atob(s)\<close> is the forgiving base64 decoding of the Infra Standard: ASCII whitespace is
  removed, one or two \<open>=\<close> are removed from the end of a text whose length is a multiple
  of four, and a text of length 1 modulo 4 or with a character outside the alphabet
  throws InvalidCharacterError (here \<open>None\<close>).
\<close>

definition ascii_whitespace :: "nat \<Rightarrow> bool" where
  "ascii_whitespace c \<longleftrightarrow> c \<in> {0x9, 0xA, 0xC, 0xD, 0x20}"

definition strip_padding :: "nat list \<Rightarrow> nat list" where
  "strip_padding d =
     (if length d mod 4 = 0 \<and> d \<noteq> [] then
        (if last d = 61 then
           (if butlast d \<noteq> [] \<and> last (butlast d) = 61 then butlast (butlast d)
            else butlast d)
         else d)
      else d)"

fun those_values :: "nat list \<Rightarrow> nat list option" where
  "those_values [] = Some []"
| "those_values (c # cs) =
     (case b64_value c of None \<Rightarrow> None
      | Some v \<Rightarrow> (case those_values cs of None \<Rightarrow> None | Some vs \<Rightarrow> Some (v # vs)))"

definition atob :: "jsstring \<Rightarrow> jsstring option" where
  "atob s =
     (let d = strip_padding (filter (\<lambda>c. \<not> ascii_whitespace c) (map unat s))
      in if length d mod 4 = 1 then None
         else (case those_values d of None \<Rightarrow> None
               | Some vs \<Rightarrow> Some (map of_nat (octets vs))))"


text \<open>The base64 text of a byte array: what \<open>btoa(String.fromCharCode(...bytes))\<close> returns.\<close>

definition base64 :: "bytes \<Rightarrow> jsstring" where
  "base64 bs = map of_nat (map b64_char (sextets (map unat bs)) @
     replicate ((3 - length bs mod 3) mod 3) 61)"

text \<open>Unicode scalar values: the code points that are not surrogates.\<close>

definition scalar_value :: "nat \<Rightarrow> bool" where
  "scalar_value cp \<longleftrightarrow> cp < 0x110000 \<and> \<not> (0xD800 \<le> cp \<and> cp \<le> 0xDFFF)"

subsection \<open>Numbers as text\<close>

text \<open>
  \<open>Number.prototype.toString()\<close> on an integer below \<open>10^21\<close> in magnitude, which every
  time value is: the decimal digits, after a minus sign for a negative number.
\<close>

fun digits :: "nat \<Rightarrow> nat list" where
  "digits n = (if n < 10 then [n] else digits (n div 10) @ [n mod 10])"

declare digits.simps [simp del]

definition digit_char :: "nat \<Rightarrow> 16 word" where
  "digit_char d = of_nat (48 + d)"

definition toString :: "int \<Rightarrow> jsstring" where
  "toString i =
     (if i < 0 then 45 # map digit_char (digits (nat (- i)))
      else map digit_char (digits (nat i)))"

text \<open>\<open>String(v)\<close> of a value that is a string or \<open>null\<close>.\<close>

definition string_of :: "jsstring option \<Rightarrow> jsstring" where
  "string_of v = (case v of None \<Rightarrow> js ''null'' | Some s \<Rightarrow> s)"

section \<open>The data model\<close>

text \<open>A vault entry, as \<open>handleAddEntry\<close> builds it; \<open>updatedAt\<close> is set by an edit only.\<close>

record entry =
  entry_id :: jsstring
  platform :: jsstring
  username :: jsstring
  password :: jsstring
  createdAt :: jsstring
  updatedAt :: "jsstring option"

text \<open>A registered user, as \<open>handleRegister\<close> stores it under \<open>users\<close>.\<close>

record user =
  email :: jsstring
  hashedPassword :: jsstring
  createdAt_user :: jsstring

text \<open>
  The object both \<open>getPasswordForDomain\<close> return. The literal of the background service
  has no \<open>username\<close> property: reading it there gives \<open>undefined\<close>, here \<open>None\<close>.
\<close>

record credentials =
  cred_platform :: jsstring
  cred_username :: "jsstring option"
  cred_password :: jsstring

text \<open>Exceptions: those of the platform, and \<open>new Error(message)\<close> thrown by the code.\<close>

datatype exn = TypeError | InvalidCharacterError | OperationError | SyntaxError | Error string

section \<open>The platform\<close>

text \<open>
  The services of the browser that the code calls and that are not part of the
  repository: the case mappings of strings, Web Crypto (PBKDF2 with HMAC-SHA-256 behind
  \<open>importKey\<close> and \<open>deriveKey\<close> or \<open>deriveBits\<close>, AES-GCM behind \<open>encrypt\<close> and
  \<open>decrypt\<close>) and JSON. A rejected promise or a thrown exception is \<open>None\<close>. The type
  \<open>'k\<close> is that of a \<open>CryptoKey\<close>.
\<close>

record 'k host =
  toLowerCase :: "jsstring \<Rightarrow> jsstring"
  toUpperCase :: "jsstring \<Rightarrow> jsstring"
  pbkdf2_deriveKey :: "bytes \<Rightarrow> bytes \<Rightarrow> nat \<Rightarrow> 'k option"
  pbkdf2_deriveBits :: "bytes \<Rightarrow> bytes \<Rightarrow> nat \<Rightarrow> nat \<Rightarrow> bytes option"
  aes_gcm_encrypt :: "'k \<Rightarrow> bytes \<Rightarrow> bytes \<Rightarrow> bytes option"
  aes_gcm_decrypt :: "'k \<Rightarrow> bytes \<Rightarrow> bytes \<Rightarrow> bytes option"
  stringify_entries :: "entry list \<Rightarrow> jsstring"
  parse_entries :: "jsstring \<Rightarrow> entry list option"
  stringify_users :: "(jsstring \<rightharpoonup> user) \<Rightarrow> jsstring"
  parse_users :: "jsstring \<Rightarrow> (jsstring \<rightharpoonup> user) option"
  stringify_user :: "user \<Rightarrow> jsstring"

text \<open>
  \<open>crypto.getRandomValues\<close> reads an endless supply of bytes; a call takes the bytes it
  returns off the front.
\<close>

type_synonym entropy = "nat \<Rightarrow> byte"

section \<open>CryptoUtils\<close>

definition saltLength :: nat where "saltLength = 16"
definition ivLength :: nat where "ivLength = 12"
definition iterations :: nat where "iterations = 100000"

definition generateRandomBytes :: "nat \<Rightarrow> entropy \<Rightarrow> bytes \<times> entropy" where
  "generateRandomBytes n rnd = (map rnd [0..<n], \<lambda>i. rnd (i + n))"

definition deriveKey :: "'k host \<Rightarrow> jsstring \<Rightarrow> bytes \<Rightarrow> 'k option" where
  "deriveKey H pw salt = pbkdf2_deriveKey H (TextEncoder_encode pw) salt iterations"

text \<open>
  Every exception inside \<open>encrypt\<close> is caught and replaced by the one it throws. The
  spread in \<open>String.fromCharCode(...result)\<close> is taken to stay within the number of
  arguments that the engine allows; beyond it the code throws where this definition
  returns the envelope.
\<close>

definition encrypt :: "'k host \<Rightarrow> entropy \<Rightarrow> jsstring \<Rightarrow> jsstring \<Rightarrow> exn + jsstring" where
  "encrypt H rnd plaintext pw =
     (let data = TextEncoder_encode plaintext;
          (salt, rnd') = generateRandomBytes saltLength rnd;
          (iv, rnd'') = generateRandomBytes ivLength rnd'
      in case deriveKey H pw salt of
           None \<Rightarrow> Inl (Error ''Failed to encrypt data'')
         | Some key \<Rightarrow>
             (case aes_gcm_encrypt H key iv data of
                None \<Rightarrow> Inl (Error ''Failed to encrypt data'')
              | Some encrypted \<Rightarrow>
                  (case btoa (fromCharCode (salt @ iv @ encrypted)) of
                     None \<Rightarrow> Inl (Error ''Failed to encrypt data'')
                   | Some text \<Rightarrow> Inr text)))"

definition decrypt_failed :: exn where
  "decrypt_failed = Error ''Failed to decrypt data - invalid password or corrupted data''"

definition decrypt :: "'k host \<Rightarrow> jsstring \<Rightarrow> jsstring \<Rightarrow> exn + jsstring" where
  "decrypt H encryptedData pw =
     (case atob encryptedData of
        None \<Rightarrow> Inl decrypt_failed
      | Some text \<Rightarrow>
          (let data = charCodes text;
               salt = slice 0 saltLength data;
               iv = slice saltLength (saltLength + ivLength) data;
               encrypted = drop (saltLength + ivLength) data
           in case deriveKey H pw salt of
                None \<Rightarrow> Inl decrypt_failed
              | Some key \<Rightarrow>
                  (case aes_gcm_decrypt H key iv encrypted of
                     None \<Rightarrow> Inl decrypt_failed
                   | Some decrypted \<Rightarrow> Inr (TextDecoder_decode decrypted))))"

text \<open>
  \<open>hashPassword(password, salt = null)\<close> has no handler of its own: a rejection of
  \<open>deriveBits\<close> leaves it as it is. A \<open>Uint8Array\<close> is truthy also when it is empty, so only
  \<open>null\<close> makes it draw a salt.
\<close>

definition hashPassword ::
  "'k host \<Rightarrow> entropy \<Rightarrow> jsstring \<Rightarrow> bytes option \<Rightarrow> exn + jsstring" where
  "hashPassword H rnd pw salt0 =
     (let data = TextEncoder_encode pw;
          salt = (case salt0 of None \<Rightarrow> fst (generateRandomBytes saltLength rnd)
                  | Some s \<Rightarrow> s)
      in case pbkdf2_deriveBits H data salt iterations 256 of
           None \<Rightarrow> Inl OperationError
         | Some hash \<Rightarrow>
             (case btoa (fromCharCode (salt @ hash)) of
                None \<Rightarrow> Inl InvalidCharacterError
              | Some text \<Rightarrow> Inr text))"

text \<open>
  The body of \<open>verifyPassword\<close> inside its \<open>try\<close>, then the function: the handler returns
  \<open>false\<close> for every exception. The result is a sum so that a call that throws would be
  an \<open>Inl\<close>.
\<close>

definition verifyPassword_try ::
  "'k host \<Rightarrow> entropy \<Rightarrow> jsstring \<Rightarrow> jsstring \<Rightarrow> exn + bool" where
  "verifyPassword_try H rnd pw storedHash =
     (case atob storedHash of
        None \<Rightarrow> Inl InvalidCharacterError
      | Some text \<Rightarrow>
          (let hashData = charCodes text;
               salt = slice 0 saltLength hashData
           in case hashPassword H rnd pw (Some salt) of
                Inl e \<Rightarrow> Inl e
              | Inr computedHash \<Rightarrow> Inr (computedHash = storedHash)))"

definition verifyPassword ::
  "'k host \<Rightarrow> entropy \<Rightarrow> jsstring \<Rightarrow> jsstring \<Rightarrow> exn + bool" where
  "verifyPassword H rnd pw storedHash =
     (case verifyPassword_try H rnd pw storedHash of
        Inl e \<Rightarrow> Inr False
      | Inr b \<Rightarrow> Inr b)"


text \<open>The salt and the initialisation vector that \<open>encrypt\<close> draws.\<close>

definition fresh_salt :: "entropy \<Rightarrow> bytes" where
  "fresh_salt rnd = fst (generateRandomBytes saltLength rnd)"

definition fresh_iv :: "entropy \<Rightarrow> bytes" where
  "fresh_iv rnd = fst (generateRandomBytes ivLength (snd (generateRandomBytes saltLength rnd)))"

text \<open>
  What is taken of the cipher: AES-GCM decrypts, under the same key and initialisation
  vector, what it encrypted.
\<close>

definition aead_correct :: "'k host \<Rightarrow> bool" where
  "aead_correct H \<longleftrightarrow>
     (\<forall>key iv d c. aes_gcm_encrypt H key iv d = Some c \<longrightarrow>
        aes_gcm_decrypt H key iv c = Some d)"

section \<open>PasswordVault\<close>

text \<open>
  The messages of \<open>notifyExtension(action, data)\<close>, which the background service takes
  as \<open>VAULT_UPDATE\<close>: the action with its data. The data of \<open>entries_updated\<close> may be
  \<open>null\<close>.
\<close>

datatype vault_message =
    user_logged_in jsstring
  | user_logged_out
  | entries_updated "entry list option"
  | other_action

text \<open>What a handler shows and sends, in order.\<close>

datatype effect = Alert string | Notify vault_message

text \<open>
  The fields of the class and \<open>localStorage\<close>, a map from keys to strings. Writing to
  \<open>localStorage\<close> is taken to succeed.
\<close>

record vault =
  currentUser :: "user option"
  userPassword :: "jsstring option"
  entries :: "entry list"
  editingEntryId :: "jsstring option"
  localStorage :: "jsstring \<rightharpoonup> jsstring"

text \<open>
  \<open>existingUsers[email]\<close> is also truthy for a name that the object inherits from
  \<open>Object.prototype\<close>.
\<close>

definition inherited_property :: "jsstring \<Rightarrow> bool" where
  "inherited_property k \<longleftrightarrow>
     k \<in> js ` {''constructor'', ''hasOwnProperty'', ''isPrototypeOf'', ''propertyIsEnumerable'',
       ''toLocaleString'', ''toString'', ''valueOf'', ''__proto__'', ''__defineGetter__'',
       ''__defineSetter__'', ''__lookupGetter__'', ''__lookupSetter__''}"

text \<open>\<open>JSON.parse(localStorage.getItem('users') || '{}')\<close>; \<open>None\<close> when it throws.\<close>

definition stored_users :: "'k host \<Rightarrow> vault \<Rightarrow> (jsstring \<rightharpoonup> user) option" where
  "stored_users H st =
     parse_users H
       (case localStorage st (js ''users'') of
          None \<Rightarrow> js ''{}''
        | Some v \<Rightarrow> if v = [] then js ''{}'' else v)"

definition handleRegister ::
  "'k host \<Rightarrow> entropy \<Rightarrow> jsstring \<Rightarrow> jsstring \<Rightarrow> jsstring \<Rightarrow> jsstring \<Rightarrow> vault
    \<Rightarrow> vault \<times> effect list" where
  "handleRegister H rnd isoTime email' pw confirmPassword st =
     (if pw \<noteq> confirmPassword then (st, [Alert ''Passwords do not match!''])
      else if length pw < 8 then
        (st, [Alert ''Password must be at least 8 characters long!''])
      else
        (case stored_users H st of
           None \<Rightarrow> (st, [Alert ''Registration failed. Please try again.''])
         | Some existingUsers \<Rightarrow>
             if existingUsers email' \<noteq> None \<or> inherited_property email' then
               (st, [Alert ''User with this email already exists!''])
             else
               (case hashPassword H rnd pw None of
                  Inl e \<Rightarrow> (st, [Alert ''Registration failed. Please try again.''])
                | Inr hashed \<Rightarrow>
                    (st\<lparr>localStorage := (localStorage st)
                        (js ''users'' \<mapsto>
                           stringify_users H
                             (existingUsers(email' \<mapsto>
                                \<lparr>email = email', hashedPassword = hashed,
                                 createdAt_user = isoTime\<rparr>)))\<rparr>,
                     [Alert ''Registration successful! Please login.'']))))"

text \<open>
  \<open>loadUserEntries\<close>: the body inside its \<open>try\<close>, then the function, whose handler resets
  the entries. \<open>this.currentUser.email\<close> throws when there is no current user, and an
  empty string read from storage is falsy.
\<close>

definition loadUserEntries_try :: "'k host \<Rightarrow> vault \<Rightarrow> exn + entry list" where
  "loadUserEntries_try H st =
     (case currentUser st of
        None \<Rightarrow> Inl TypeError
      | Some u \<Rightarrow>
          (case localStorage st (js ''entries_'' @ email u) of
             None \<Rightarrow> Inr []
           | Some encryptedData \<Rightarrow>
               if encryptedData = [] then Inr []
               else
                 (case decrypt H encryptedData (string_of (userPassword st)) of
                    Inl e \<Rightarrow> Inl e
                  | Inr decryptedData \<Rightarrow>
                      (case parse_entries H decryptedData of
                         None \<Rightarrow> Inl SyntaxError
                       | Some es \<Rightarrow> Inr es))))"

definition loadUserEntries :: "'k host \<Rightarrow> vault \<Rightarrow> exn + vault" where
  "loadUserEntries H st =
     (case loadUserEntries_try H st of
        Inl e \<Rightarrow> Inr (st\<lparr>entries := []\<rparr>)
      | Inr es \<Rightarrow> Inr (st\<lparr>entries := es\<rparr>))"

text \<open>
  \<open>handleLogin\<close>. For a name inherited from \<open>Object.prototype\<close> the user found has no
  \<open>hashedPassword\<close>, and \<open>verifyPassword\<close> is called with \<open>undefined\<close>; \<open>atob\<close> rejects
  that text, so the password is not valid there and the branch of a valid password
  without a stored user is never taken.
\<close>

definition handleLogin ::
  "'k host \<Rightarrow> entropy \<Rightarrow> jsstring \<Rightarrow> jsstring \<Rightarrow> vault \<Rightarrow> vault \<times> effect list" where
  "handleLogin H rnd email' pw st =
     (case stored_users H st of
        None \<Rightarrow> (st, [Alert ''Login failed. Please try again.''])
      | Some users \<Rightarrow>
          if users email' = None \<and> \<not> inherited_property email' then
            (st, [Alert ''User not found!''])
          else
            (case verifyPassword H rnd pw
                    (case users email' of None \<Rightarrow> js ''undefined''
                     | Some u \<Rightarrow> hashedPassword u) of
               Inl e \<Rightarrow> (st, [Alert ''Login failed. Please try again.''])
             | Inr isValidPassword \<Rightarrow>
                 if \<not> isValidPassword then (st, [Alert ''Invalid password!''])
                 else
                   (case users email' of
                      None \<Rightarrow> (st, [Alert ''Login failed. Please try again.''])
                    | Some u \<Rightarrow>
                        (let st1 = st\<lparr>currentUser := Some u, userPassword := Some pw,
                               localStorage := (localStorage st)
                                 (js ''currentUser'' \<mapsto> stringify_user H u)\<rparr>
                         in case loadUserEntries H st1 of
                              Inl e \<Rightarrow> (st1, [Alert ''Login failed. Please try again.''])
                            | Inr st2 \<Rightarrow> (st2, [Notify (user_logged_in email')])))))"

definition handleLogout :: "vault \<Rightarrow> vault \<times> effect list" where
  "handleLogout st =
     (st\<lparr>currentUser := None, userPassword := None, entries := [],
         localStorage := (localStorage st)(js ''currentUser'' := None)\<rparr>,
      [Notify user_logged_out])"

definition saveUserEntries :: "'k host \<Rightarrow> entropy \<Rightarrow> vault \<Rightarrow> vault \<times> effect list" where
  "saveUserEntries H rnd st =
     (case currentUser st of
        None \<Rightarrow> (st, [Alert ''Failed to save entries. Please try again.''])
      | Some u \<Rightarrow>
          (case encrypt H rnd (stringify_entries H (entries st))
                  (string_of (userPassword st)) of
             Inl e \<Rightarrow> (st, [Alert ''Failed to save entries. Please try again.''])
           | Inr encryptedData \<Rightarrow>
               (st\<lparr>localStorage := (localStorage st)
                     (js ''entries_'' @ email u \<mapsto> encryptedData)\<rparr>,
                [Notify (entries_updated (Some (entries st)))])))"

definition capitalizePlatform :: "'k host \<Rightarrow> jsstring \<Rightarrow> jsstring" where
  "capitalizePlatform H p = toUpperCase H (take 1 p) @ toLowerCase H (drop 1 p)"

text \<open>
  \<open>handleAddEntry\<close>, with the three form fields as they are typed, \<open>Date.now()\<close> and
  \<open>new Date().toISOString()\<close>.
\<close>

definition handleAddEntry ::
  "'k host \<Rightarrow> entropy \<Rightarrow> int \<Rightarrow> jsstring \<Rightarrow> jsstring \<Rightarrow> jsstring \<Rightarrow> jsstring \<Rightarrow> vault
    \<Rightarrow> vault \<times> effect list" where
  "handleAddEntry H rnd now isoTime name uname pw st =
     (let platformName = trim name;
          platformUsername = trim uname;
          platformPassword = pw
      in if platformName = [] \<or> platformUsername = [] \<or> platformPassword = [] then
           (st, [Alert ''Please fill in all fields!''])
         else if \<exists>e \<in> set (entries st).
                   toLowerCase H (platform e) = toLowerCase H platformName then
           (st, [Alert ''An entry for this platform already exists!''])
         else
           (let newEntry = \<lparr>entry_id = toString now,
                             platform = capitalizePlatform H platformName,
                             username = platformUsername,
                             password = platformPassword,
                             createdAt = isoTime,
                             updatedAt = None\<rparr>;
                (st', effects) = saveUserEntries H rnd (st\<lparr>entries := entries st @ [newEntry]\<rparr>)
            in (st', effects @ [Alert ''Password entry added successfully!''])))"

fun findIndex :: "('a \<Rightarrow> bool) \<Rightarrow> 'a list \<Rightarrow> nat option" where
  "findIndex P [] = None"
| "findIndex P (x # xs) = (if P x then Some 0 else map_option Suc (findIndex P xs))"

definition openEditModal :: "jsstring \<Rightarrow> vault \<Rightarrow> vault" where
  "openEditModal entryId st =
     (case find (\<lambda>e. entry_id e = entryId) (entries st) of
        None \<Rightarrow> st
      | Some e \<Rightarrow> st\<lparr>editingEntryId := Some entryId\<rparr>)"

definition closeModal :: "vault \<Rightarrow> vault" where
  "closeModal st = st\<lparr>editingEntryId := None\<rparr>"

definition handleEditEntry ::
  "'k host \<Rightarrow> entropy \<Rightarrow> jsstring \<Rightarrow> jsstring \<Rightarrow> jsstring \<Rightarrow> jsstring \<Rightarrow> vault
    \<Rightarrow> vault \<times> effect list" where
  "handleEditEntry H rnd isoTime name uname pw st =
     (let platformName = trim name;
          platformUsername = trim uname;
          platformPassword = pw
      in if platformName = [] \<or> platformUsername = [] \<or> platformPassword = [] then
           (st, [Alert ''Please fill in all fields!''])
         else
           (case findIndex (\<lambda>e. Some (entry_id e) = editingEntryId st) (entries st) of
              None \<Rightarrow> (st, [Alert ''Entry not found!''])
            | Some entryIndex \<Rightarrow>
                if \<exists>e \<in> set (entries st).
                     toLowerCase H (platform e) = toLowerCase H platformName \<and>
                     Some (entry_id e) \<noteq> editingEntryId st then
                  (st, [Alert ''An entry for this platform already exists!''])
                else
                  (let edited = (entries st ! entryIndex)
                         \<lparr>platform := capitalizePlatform H platformName,
                          username := platformUsername,
                          password := platformPassword,
                          updatedAt := Some isoTime\<rparr>;
                       (st', effects) =
                         saveUserEntries H rnd
                           (st\<lparr>entries := (entries st)[entryIndex := edited]\<rparr>)
                   in (closeModal st',
                       effects @ [Alert ''Password entry updated successfully!'']))))"

text \<open>\<open>handleDeleteEntry\<close>, with the answer to \<open>confirm\<close>.\<close>

definition handleDeleteEntry ::
  "'k host \<Rightarrow> entropy \<Rightarrow> bool \<Rightarrow> jsstring \<Rightarrow> vault \<Rightarrow> vault \<times> effect list" where
  "handleDeleteEntry H rnd confirmed entryId st =
     (if \<not> confirmed then (st, [])
      else
        (let (st', effects) =
               saveUserEntries H rnd
                 (st\<lparr>entries := filter (\<lambda>e. entry_id e \<noteq> entryId) (entries st)\<rparr>)
         in (st', effects @ [Alert ''Password entry deleted successfully!''])))"

subsection \<open>Matching a domain\<close>

text \<open>The two tests of the loop body of \<open>getPasswordForDomain\<close>, on one entry.\<close>

definition domain_matches :: "'k host \<Rightarrow> jsstring \<Rightarrow> entry \<Rightarrow> bool" where
  "domain_matches H normalizedDomain e =
     (let platformLower = toLowerCase H (platform e)
      in (str_includes normalizedDomain platformLower \<or>
          str_includes platformLower normalizedDomain) \<or>
         (str_includes normalizedDomain (platformLower @ js ''.com'') \<or>
          str_includes (platformLower @ js ''.com'') normalizedDomain))"

definition normalize_domain :: "'k host \<Rightarrow> jsstring \<Rightarrow> jsstring" where
  "normalize_domain H domain = replace (js ''www.'') [] (toLowerCase H domain)"

fun vault_loop :: "'k host \<Rightarrow> jsstring \<Rightarrow> entry list \<Rightarrow> credentials option" where
  "vault_loop H normalizedDomain [] = None"
| "vault_loop H normalizedDomain (e # es) =
     (let platformLower = toLowerCase H (platform e)
      in if str_includes normalizedDomain platformLower \<or>
            str_includes platformLower normalizedDomain then
           Some \<lparr>cred_platform = platform e, cred_username = Some (username e),
                 cred_password = password e\<rparr>
         else if str_includes normalizedDomain (platformLower @ js ''.com'') \<or>
                 str_includes (platformLower @ js ''.com'') normalizedDomain then
           Some \<lparr>cred_platform = platform e, cred_username = Some (username e),
                 cred_password = password e\<rparr>
         else vault_loop H normalizedDomain es)"

definition getPasswordForDomain :: "'k host \<Rightarrow> vault \<Rightarrow> jsstring \<Rightarrow> credentials option" where
  "getPasswordForDomain H st domain =
     (if currentUser st = None then None
      else vault_loop H (normalize_domain H domain) (entries st))"


text \<open>The interface events of the page, each with what it reads.\<close>

datatype vault_event =
    Register entropy jsstring jsstring jsstring jsstring
  | Login entropy jsstring jsstring
  | Logout
  | AddEntry entropy int jsstring jsstring jsstring jsstring
  | OpenEditModal jsstring
  | CloseModal
  | EditEntry entropy jsstring jsstring jsstring jsstring
  | DeleteEntry entropy bool jsstring

fun vault_step :: "'k host \<Rightarrow> vault \<Rightarrow> vault_event \<Rightarrow> vault" where
  "vault_step H st (Register rnd isoTime e p c) = fst (handleRegister H rnd isoTime e p c st)"
| "vault_step H st (Login rnd e p) = fst (handleLogin H rnd e p st)"
| "vault_step H st Logout = fst (handleLogout st)"
| "vault_step H st (AddEntry rnd now isoTime n u p) =
     fst (handleAddEntry H rnd now isoTime n u p st)"
| "vault_step H st (OpenEditModal i) = openEditModal i st"
| "vault_step H st CloseModal = closeModal st"
| "vault_step H st (EditEntry rnd isoTime n u p) = fst (handleEditEntry H rnd isoTime n u p st)"
| "vault_step H st (DeleteEntry rnd c i) = fst (handleDeleteEntry H rnd c i st)"

fun is_Login :: "vault_event \<Rightarrow> bool" where
  "is_Login (Login rnd e p) = True"
| "is_Login ev = False"

section \<open>BackgroundService\<close>

text \<open>
  The fields of the class, and the two keys of \<open>chrome.storage.local\<close> it writes:
  \<open>userStatus\<close>, an object with \<open>isLoggedIn\<close> and \<open>email\<close>, and \<open>passwordData\<close>. Writing
  to the storage is taken to succeed.
\<close>

record background =
  passwordData :: "entry list"
  isUserLoggedIn :: bool
  userEmail :: "jsstring option"
  stored_userStatus :: "(bool \<times> jsstring option) option"
  stored_passwordData :: "entry list option"

text \<open>
  \<open>handleVaultUpdate\<close> is asynchronous. The case \<open>user_logged_out\<close> sets the three fields
  and starts the write of \<open>userStatus\<close>, waits for it, and only then starts the write of
  \<open>passwordData\<close>: its two parts, before and after the first \<open>await\<close>. The other cases
  change the fields and start their one write before they wait. A write takes effect
  when it is started: the storage serves the requests of the worker in their order.
\<close>

definition logged_out_first :: "background \<Rightarrow> background" where
  "logged_out_first b =
     b\<lparr>isUserLoggedIn := False, userEmail := None, passwordData := [],
       stored_userStatus := Some (False, None)\<rparr>"

definition logged_out_second :: "background \<Rightarrow> background" where
  "logged_out_second b = b\<lparr>stored_passwordData := Some []\<rparr>"

text \<open>The handler when nothing else runs while it waits.\<close>

fun handleVaultUpdate :: "vault_message \<Rightarrow> background \<Rightarrow> background" where
  "handleVaultUpdate (user_logged_in e) b =
     b\<lparr>isUserLoggedIn := True, userEmail := Some e,
       stored_userStatus := Some (True, Some e)\<rparr>"
| "handleVaultUpdate user_logged_out b = logged_out_second (logged_out_first b)"
| "handleVaultUpdate (entries_updated d) b =
     (let pd = (case d of None \<Rightarrow> [] | Some es \<Rightarrow> es)
      in b\<lparr>passwordData := pd, stored_passwordData := Some pd\<rparr>)"
| "handleVaultUpdate other_action b = b"

definition broadcastToContentScripts :: "background \<Rightarrow> bool \<times> entry list" where
  "broadcastToContentScripts b = (isUserLoggedIn b, passwordData b)"

text \<open>
  \<open>loadStoredData\<close> is asynchronous too: it starts the read of \<open>userStatus\<close> and waits,
  takes the result and starts the read of \<open>passwordData\<close> and waits, and takes that
  result. Its two continuations, each with what its read returned; a read returns what
  the storage held when the read was started. An empty \<open>email\<close> is falsy and read as
  \<open>null\<close>.
\<close>

definition loadStoredData_userStatus ::
  "(bool \<times> jsstring option) option \<Rightarrow> background \<Rightarrow> background" where
  "loadStoredData_userStatus userStatus b =
     (case userStatus of
        None \<Rightarrow> b
      | Some (l, e) \<Rightarrow>
          b\<lparr>isUserLoggedIn := l,
            userEmail := (case e of None \<Rightarrow> None
                          | Some a \<Rightarrow> if a = [] then None else Some a)\<rparr>)"

definition loadStoredData_passwordData :: "entry list option \<Rightarrow> background \<Rightarrow> background" where
  "loadStoredData_passwordData pd b =
     (case pd of None \<Rightarrow> b | Some es \<Rightarrow> b\<lparr>passwordData := es\<rparr>)"

text \<open>
  \<open>loadStoredData\<close> when nothing else runs while it waits, and a start of the service
  worker of that kind: the constructor sets the fields and calls \<open>loadStoredData\<close>.
\<close>

definition loadStoredData :: "background \<Rightarrow> background" where
  "loadStoredData b =
     (let b1 = loadStoredData_userStatus (stored_userStatus b) b
      in loadStoredData_passwordData (stored_passwordData b1) b1)"

definition constructor :: "background \<Rightarrow> background" where
  "constructor b = b\<lparr>passwordData := [], isUserLoggedIn := False, userEmail := None\<rparr>"

definition restart :: "background \<Rightarrow> background" where
  "restart b = loadStoredData (constructor b)"

fun bg_loop :: "'k host \<Rightarrow> jsstring \<Rightarrow> entry list \<Rightarrow> credentials option" where
  "bg_loop H normalizedDomain [] = None"
| "bg_loop H normalizedDomain (e # es) =
     (let platformLower = toLowerCase H (platform e)
      in if str_includes normalizedDomain platformLower \<or>
            str_includes platformLower normalizedDomain then
           Some \<lparr>cred_platform = platform e, cred_username = None,
                 cred_password = password e\<rparr>
         else if str_includes normalizedDomain (platformLower @ js ''.com'') \<or>
                 str_includes (platformLower @ js ''.com'') normalizedDomain then
           Some \<lparr>cred_platform = platform e, cred_username = None,
                 cred_password = password e\<rparr>
         else bg_loop H normalizedDomain es)"

definition bg_getPasswordForDomain ::
  "'k host \<Rightarrow> background \<Rightarrow> jsstring \<Rightarrow> credentials option" where
  "bg_getPasswordForDomain H b domain =
     (if \<not> isUserLoggedIn b \<or> length (passwordData b) = 0 then None
      else bg_loop H (normalize_domain H domain) (passwordData b))"

text \<open>
  \<open>requestAutofill(domain, tabId)\<close>: the \<open>AUTOFILL_PASSWORD\<close> message it sends and the tab
  it sends it to, or nothing.
\<close>

definition requestAutofill ::
  "'k host \<Rightarrow> background \<Rightarrow> jsstring \<Rightarrow> nat \<Rightarrow> (nat \<times> credentials) option" where
  "requestAutofill H b domain tabId =
     (case bg_getPasswordForDomain H b domain of
        None \<Rightarrow> None
      | Some pd \<Rightarrow> Some (tabId, pd))"

text \<open>What happens to the service worker: a message arrives, or it is started again.\<close>

datatype bg_event = VaultUpdate vault_message | Restart

fun bg_step :: "background \<Rightarrow> bg_event \<Rightarrow> background" where
  "bg_step b (VaultUpdate m) = handleVaultUpdate m b"
| "bg_step b Restart = restart b"

fun is_logged_in_message :: "bg_event \<Rightarrow> bool" where
  "is_logged_in_message (VaultUpdate (user_logged_in e)) = True"
| "is_logged_in_message ev = False"

section \<open>The matcher as the specification words it\<close>

text \<open>
  The hostname is normalized by stripping a leading \<open>www.\<close>; the first entry in list
  order is returned whose lower-cased platform is in bidirectional substring containment
  with the normalized hostname, or whose platform followed by \<open>.com\<close> is.
\<close>

definition strip_leading_www :: "jsstring \<Rightarrow> jsstring" where
  "strip_leading_www h = (if prefix (js ''www.'') h then drop 4 h else h)"

definition spec_match :: "'k host \<Rightarrow> entry list \<Rightarrow> jsstring \<Rightarrow> entry option" where
  "spec_match H es hostname = find (domain_matches H (strip_leading_www hostname)) es"

section \<open>Notions used to state the properties\<close>

text \<open>The objects the two matchers build from the entry they select.\<close>

definition vault_credentials :: "entry \<Rightarrow> credentials" where
  "vault_credentials e =
     \<lparr>cred_platform = platform e, cred_username = Some (username e), cred_password = password e\<rparr>"

definition bg_credentials :: "entry \<Rightarrow> credentials" where
  "bg_credentials e =
     \<lparr>cred_platform = platform e, cred_username = None, cred_password = password e\<rparr>"

text \<open>
  On a string of ASCII code units the case mappings of ECMAScript change the letters and
  nothing else.
\<close>

definition ascii_lower :: "16 word \<Rightarrow> 16 word" where
  "ascii_lower c = (if 0x41 \<le> c \<and> c \<le> 0x5A then c + 0x20 else c)"

definition ascii_upper :: "16 word \<Rightarrow> 16 word" where
  "ascii_upper c = (if 0x61 \<le> c \<and> c \<le> 0x7A then c - 0x20 else c)"

definition ascii_case_host :: "'k host \<Rightarrow> bool" where
  "ascii_case_host H \<longleftrightarrow>
     (\<forall>s. list_all (\<lambda>c. c < 0x80) s \<longrightarrow>
        toLowerCase H s = map ascii_lower s \<and> toUpperCase H s = map ascii_upper s)"

text \<open>A run of additions, each with what it reads; the second component is \<open>Date.now()\<close>.\<close>

type_synonym add_request = "entropy \<times> int \<times> jsstring \<times> jsstring \<times> jsstring \<times> jsstring"

fun add_all :: "'k host \<Rightarrow> vault \<Rightarrow> add_request list \<Rightarrow> vault" where
  "add_all H st [] = st"
| "add_all H st ((rnd, now, isoTime, name, uname, pw) # rs) =
     add_all H (fst (handleAddEntry H rnd now isoTime name uname pw st)) rs"

definition request_time :: "add_request \<Rightarrow> int" where
  "request_time r = fst (snd r)"

text \<open>The number that a list of decimal digits writes.\<close>

definition undigits :: "nat list \<Rightarrow> nat" where
  "undigits ds = foldl (\<lambda>a d. 10 * a + d) 0 ds"

text \<open>The stored \<open>userStatus\<close> does not say that a user is logged in.\<close>

definition stored_logged_out :: "background \<Rightarrow> bool" where
  "stored_logged_out b = (case stored_userStatus b of None \<Rightarrow> True | Some (l, e) \<Rightarrow> \<not> l)"

section \<open>A small platform to run the model on\<close>

text \<open>
  Case mappings that are those of ECMAScript on ASCII letters and leave every other code
  unit alone; a key derivation that is the salt followed by the password; a cipher that
  appends the key as a tag and checks it; a serialisation of entries that lists their
  platforms; and a JSON of users that knows the empty object and one text, \<open>demo\<close>, for
  the two users below. They stand for the real algorithms only where a concrete run of
  the model is wanted.
\<close>

definition demo_decrypt :: "bytes \<Rightarrow> bytes \<Rightarrow> bytes \<Rightarrow> bytes option" where
  "demo_decrypt key iv c =
     (if length key \<le> length c \<and> drop (length c - length key) c = key
      then Some (take (length c - length key) c) else None)"

definition demo_user :: user where
  "demo_user =
     \<lparr>email = js ''a@x.com'',
      hashedPassword = js ''AAAAAAAAAAAAAAAAAAAAAAAAAAAAAAAAAAAAAAAAAABjb3JyZWN0aG9yc2Ux'',
      createdAt_user = js ''2024-01-01T00:00:00.000Z''\<rparr>"

definition short_user :: user where
  "short_user =
     \<lparr>email = js ''b@x.com'',
      hashedPassword = js ''AAAAAAAAAAAAAAAAAAAAAAAAAAAAAAAAAAAAAAAAAABzaG9ydA=='',
      createdAt_user = js ''2024-01-01T00:00:00.000Z''\<rparr>"

definition demo_users :: "jsstring \<rightharpoonup> user" where
  "demo_users = [js ''a@x.com'' \<mapsto> demo_user, js ''b@x.com'' \<mapsto> short_user]"

definition demo_host :: "bytes host" where
  "demo_host =
     \<lparr>toLowerCase = map ascii_lower,
      toUpperCase = map ascii_upper,
      pbkdf2_deriveKey = (\<lambda>pw salt n. Some (salt @ pw)),
      pbkdf2_deriveBits = (\<lambda>pw salt n len. Some (salt @ pw)),
      aes_gcm_encrypt = (\<lambda>key iv d. Some (d @ key)),
      aes_gcm_decrypt = demo_decrypt,
      stringify_entries = (\<lambda>es. concat (map (\<lambda>e. platform e @ js '';'') es)),
      parse_entries = (\<lambda>s. if s = [] then Some [] else None),
      stringify_users = (\<lambda>m. js ''demo''),
      parse_users = (\<lambda>s. if s = js ''{}'' then Some Map.empty
                          else if s = js ''demo'' then Some demo_users else None),
      stringify_user = email\<rparr>"

text \<open>The same platform with a key derivation that fails.\<close>

definition failing_host :: "bytes host" where
  "failing_host = demo_host\<lparr>pbkdf2_deriveBits := (\<lambda>pw salt n len. None)\<rparr>"

definition zero_entropy :: entropy where
  "zero_entropy = (\<lambda>i. 0)"

definition demo_time :: jsstring where
  "demo_time = js ''2024-01-01T00:00:00.000Z''"

text \<open>Four times U+1F600, each a surrogate pair: eight code units.\<close>

definition four_emoji :: jsstring where
  "four_emoji = [0xD83D, 0xDE00, 0xD83D, 0xDE00, 0xD83D, 0xDE00, 0xD83D, 0xDE00]"

definition demo_entry :: entry where
  "demo_entry =
     \<lparr>entry_id = js ''1'', platform = js ''Github'', username = js ''octocat'',
      password = js ''s3cret'', createdAt = demo_time, updatedAt = None\<rparr>"

definition awww_entry :: entry where
  "awww_entry = demo_entry\<lparr>platform := js ''Awww''\<rparr>"

text \<open>
  What \<open>encrypt\<close> gives on this platform for the text \<open>[]\<close> and for the text that is one
  byte order mark, both under the password \<open>pw\<close>.
\<close>

definition demo_envelope :: jsstring where
  "demo_envelope = js ''AAAAAAAAAAAAAAAAAAAAAAAAAAAAAAAAAAAAAFtdAAAAAAAAAAAAAAAAAAAAAHB3''"

definition bom_envelope :: jsstring where
  "bom_envelope = js ''AAAAAAAAAAAAAAAAAAAAAAAAAAAAAAAAAAAAAO+7vwAAAAAAAAAAAAAAAAAAAABwdw==''"

text \<open>
  An unlocked vault with one entry; a vault that nobody has unlocked, whose stored
  entries were sealed under another password; and an empty unlocked vault.
\<close>

definition demo_vault :: vault where
  "demo_vault =
     \<lparr>currentUser = Some demo_user, userPassword = Some (js ''correcthorse1''),
      entries = [demo_entry], editingEntryId = None,
      localStorage = [js ''users'' \<mapsto> js ''demo'']\<rparr>"

definition locked_vault :: vault where
  "locked_vault =
     \<lparr>currentUser = None, userPassword = None, entries = [], editingEntryId = None,
      localStorage = [js ''users'' \<mapsto> js ''demo'', js ''entries_a@x.com'' \<mapsto> demo_envelope]\<rparr>"

definition empty_vault :: vault where
  "empty_vault = demo_vault\<lparr>entries := []\<rparr>"

definition demo_background :: background where
  "demo_background =
     \<lparr>passwordData = [demo_entry], isUserLoggedIn = True, userEmail = Some (js ''a@x.com''),
      stored_userStatus = Some (True, Some (js ''a@x.com'')),
      stored_passwordData = Some [demo_entry]\<rparr>"

text \<open>
  The service worker is started by the message \<open>user_logged_out\<close> while the storage still
  holds the logged-in status and the entries: the constructor starts the read of
  \<open>userStatus\<close>; the message is handled up to its first \<open>await\<close>; the read returns and
  \<open>loadStoredData\<close> goes on to start the read of \<open>passwordData\<close>; the handler goes on
  to its second write; the second read returns.
\<close>

definition raced_logout :: background where
  "raced_logout =
     (let started = constructor demo_background;
          userStatus = stored_userStatus started;
          b1 = logged_out_first started;
          b2 = loadStoredData_userStatus userStatus b1;
          pd = stored_passwordData b2;
          b3 = logged_out_second b2
      in loadStoredData_passwordData pd b3)"

text \<open>Two entries as \<open>handleAddEntry\<close> builds them at a given time, and the two additions.\<close>

definition twitter_entry :: "int \<Rightarrow> entry" where
  "twitter_entry now =
     \<lparr>entry_id = toString now, platform = js ''Twitter'', username = js ''bob'',
      password = js ''p@ss'', createdAt = demo_time, updatedAt = None\<rparr>"

definition gmail_entry :: "int \<Rightarrow> entry" where
  "gmail_entry now =
     \<lparr>entry_id = toString now, platform = js ''Gmail'', username = js ''bob'',
      password = js ''p@ss'', createdAt = demo_time, updatedAt = None\<rparr>"

definition two_adds :: "int \<Rightarrow> int \<Rightarrow> add_request list" where
  "two_adds t1 t2 =
     [(zero_entropy, t1, demo_time, js ''Twitter'', js ''bob'', js ''p@ss''),
      (zero_entropy, t2, demo_time, js ''Gmail'', js ''bob'', js ''p@ss'')]"

section \<open>Properties of the encodings\<close>
lemma dec_ascii: "b \<le> 0x7F \<Longrightarrow> utf8_decode cp 0 lo hi (b # bs) = b # utf8_decode 0 0 0x80 0xBF bs"
  by simp

lemma dec_lead2: "0xC2 \<le> b \<Longrightarrow> b \<le> 0xDF \<Longrightarrow>
  utf8_decode cp 0 lo hi (b # bs) = utf8_decode (b mod 32) 1 0x80 0xBF bs"
  by simp

lemma dec_lead3: "0xE0 \<le> b \<Longrightarrow> b \<le> 0xEF \<Longrightarrow>
  utf8_decode cp 0 lo hi (b # bs) = utf8_decode (b mod 16) 2 (if b = 0xE0 then 0xA0 else 0x80)
             (if b = 0xED then 0x9F else 0xBF) bs"
  by simp

lemma dec_lead4: "0xF0 \<le> b \<Longrightarrow> b \<le> 0xF4 \<Longrightarrow>
  utf8_decode cp 0 lo hi (b # bs) = utf8_decode (b mod 8) 3 (if b = 0xF0 then 0x90 else 0x80)
             (if b = 0xF4 then 0x8F else 0xBF) bs"
  by simp

lemma dec_last: "lo \<le> b \<Longrightarrow> b \<le> hi \<Longrightarrow>
  utf8_decode cp 1 lo hi (b # bs) = (cp * 64 + b mod 64) # utf8_decode 0 0 0x80 0xBF bs"
  by simp

lemma dec_cont2: "lo \<le> b \<Longrightarrow> b \<le> hi \<Longrightarrow>
  utf8_decode cp 2 lo hi (b # bs) = utf8_decode (cp * 64 + b mod 64) 1 0x80 0xBF bs"
  by simp

lemma dec_cont3: "lo \<le> b \<Longrightarrow> b \<le> hi \<Longrightarrow>
  utf8_decode cp 3 lo hi (b # bs) = utf8_decode (cp * 64 + b mod 64) 2 0x80 0xBF bs"
  by simp

lemma cont_byte: "0x80 \<le> 0x80 + n mod 64" "0x80 + n mod 64 \<le> (0xBF::nat)"
  "(0x80 + n mod 64) mod 64 = n mod (64::nat)"
proof -
  show "0x80 \<le> 0x80 + n mod 64" by simp
  have "n mod 64 < 64" by simp
  then show "0x80 + n mod 64 \<le> (0xBF::nat)" by linarith
  have "(n mod 64 + 2 * 64) mod 64 = n mod 64 mod 64" by (rule mod_mult_self1)
  then show "(0x80 + n mod 64) mod 64 = n mod (64::nat)" by (simp add: add.commute)
qed

lemma divb: "(n::nat) < k * 64 \<Longrightarrow> n div 64 < k" "k * 64 \<le> n \<Longrightarrow> k \<le> n div 64"
  "(n::nat) < k * 4096 \<Longrightarrow> n div 4096 < k" "k * 4096 \<le> n \<Longrightarrow> k \<le> n div 4096"
  "(n::nat) < k * 262144 \<Longrightarrow> n div 262144 < k" "k * 262144 \<le> n \<Longrightarrow> k \<le> n div 262144"
  by (simp_all add: div_less_iff_less_mult less_eq_div_iff_mult_less_eq)

lemma lead_mod: "(q::nat) < 32 \<Longrightarrow> (0xC0 + q) mod 32 = q" "q < 16 \<Longrightarrow> (0xE0 + q) mod 16 = q"
  "q < 8 \<Longrightarrow> (0xF0 + q) mod 8 = q"
proof -
  have "(q + 6 * 32) mod 32 = q mod 32" by (rule mod_mult_self1)
  then show "(q::nat) < 32 \<Longrightarrow> (0xC0 + q) mod 32 = q" by (simp add: add.commute)
  have "(q + 14 * 16) mod 16 = q mod 16" by (rule mod_mult_self1)
  then show "q < 16 \<Longrightarrow> (0xE0 + q) mod 16 = q" by (simp add: add.commute)
  have "(q + 30 * 8) mod 8 = q mod 8" by (rule mod_mult_self1)
  then show "q < 8 \<Longrightarrow> (0xF0 + q) mod 8 = q" by (simp add: add.commute)
qed

lemma utf8_decode_one:
  assumes "scalar_value cp"
  shows "utf8_decode 0 0 0x80 0xBF (utf8_of cp @ bs) = cp # utf8_decode 0 0 0x80 0xBF bs"
proof -
  consider "cp < 0x80" | "0x80 \<le> cp" "cp < 0x800" | "0x800 \<le> cp" "cp < 0x10000"
    | "0x10000 \<le> cp" by linarith
  then show ?thesis
  proof cases
    case 1
    then show ?thesis by (simp add: utf8_of_def)
  next
    case 2
    then have u: "utf8_of cp = [0xC0 + cp div 64, 0x80 + cp mod 64]"
      by (simp add: utf8_of_def)
    from 2 have q: "2 \<le> cp div 64" "cp div 64 < 32"
      by (simp_all add: divb)
    then have l: "0xC2 \<le> 0xC0 + cp div 64" "0xC0 + cp div 64 \<le> 0xDF"
      by simp_all
    have c: "cp div 64 * 64 + cp mod 64 = cp" by simp
    show ?thesis
      unfolding u append_Cons append_Nil dec_lead2[OF l] lead_mod(1)[OF q(2)]
        dec_last[OF cont_byte(1,2)] cont_byte(3) c ..
  next
    case 3
    then have u: "utf8_of cp = [0xE0 + cp div 4096, 0x80 + cp div 64 mod 64, 0x80 + cp mod 64]"
      by (simp add: utf8_of_def)
    from 3 have q: "cp div 4096 < 16"
      by (simp_all add: divb)
    then have l: "0xE0 \<le> 0xE0 + cp div 4096" "0xE0 + cp div 4096 \<le> 0xEF"
      by simp_all
    let ?lo = "if 0xE0 + cp div 4096 = 0xE0 then 0xA0 else (0x80::nat)"
    let ?hi = "if 0xE0 + cp div 4096 = 0xED then 0x9F else (0xBF::nat)"
    have d: "cp div 4096 = cp div 64 div 64" by (simp add: div_mult2_eq[symmetric])
    have e: "cp div 64 = cp div 64 div 64 * 64 + cp div 64 mod 64" by simp
    from 3 have "32 \<le> cp div 64" by (simp add: divb)
    with e have "cp div 4096 = 0 \<Longrightarrow> 32 \<le> cp div 64 mod 64"
      unfolding d by simp
    then have r1: "?lo \<le> 0x80 + cp div 64 mod 64" by simp
    have "cp div 4096 = 13 \<Longrightarrow> cp div 64 mod 64 < 32"
    proof -
      assume a: "cp div 4096 = 13"
      then have "13 * 4096 \<le> cp" "cp < 14 * 4096"
        by (simp_all add: less_eq_div_iff_mult_less_eq[symmetric]
            div_less_iff_less_mult[symmetric])
      with assms have "cp < 0xD800" by (simp add: scalar_value_def)
      then have "cp div 64 < 864" by (simp add: divb)
      with e a show ?thesis unfolding d by linarith
    qed
    moreover have "cp div 64 mod 64 < 64" by simp
    ultimately have r2: "0x80 + cp div 64 mod 64 \<le> ?hi"
      by (cases "cp div 4096 = 13") simp_all
    from d have c: "(cp div 4096 * 64 + cp div 64 mod 64) * 64 + cp mod 64 = cp" by simp
    show ?thesis
      unfolding u append_Cons append_Nil dec_lead3[OF l] lead_mod(2)[OF q]
        dec_cont2[OF r1 r2] cont_byte(3) dec_last[OF cont_byte(1,2)] c ..
  next
    case 4
    with assms have lt: "cp < 0x110000" by (simp add: scalar_value_def)
    from 4 have u: "utf8_of cp = [0xF0 + cp div 262144, 0x80 + cp div 4096 mod 64,
        0x80 + cp div 64 mod 64, 0x80 + cp mod 64]"
      by (simp add: utf8_of_def)
    from lt have q: "cp div 262144 < 5" by (simp add: divb)
    then have q8: "cp div 262144 < 8" by simp
    from q have l: "0xF0 \<le> 0xF0 + cp div 262144" "0xF0 + cp div 262144 \<le> 0xF4"
      by simp_all
    let ?lo = "if 0xF0 + cp div 262144 = 0xF0 then 0x90 else (0x80::nat)"
    let ?hi = "if 0xF0 + cp div 262144 = 0xF4 then 0x8F else (0xBF::nat)"
    have d: "cp div 262144 = cp div 4096 div 64" "cp div 4096 = cp div 64 div 64"
      by (simp_all add: div_mult2_eq[symmetric])
    have e: "cp div 4096 = cp div 4096 div 64 * 64 + cp div 4096 mod 64" by simp
    from 4 have "16 \<le> cp div 4096" by (simp add: divb)
    with e have "cp div 262144 = 0 \<Longrightarrow> 16 \<le> cp div 4096 mod 64"
      unfolding d(1) by simp
    then have r1: "?lo \<le> 0x80 + cp div 4096 mod 64" by simp
    have "cp div 262144 = 4 \<Longrightarrow> cp div 4096 mod 64 < 16"
    proof -
      assume a: "cp div 262144 = 4"
      from lt have "cp div 4096 < 272" by (simp add: divb)
      with a e show ?thesis unfolding d(1) by linarith
    qed
    moreover have "cp div 4096 mod 64 < 64" by simp
    ultimately have r2: "0x80 + cp div 4096 mod 64 \<le> ?hi"
      by (cases "cp div 262144 = 4") simp_all
    have c: "((cp div 262144 * 64 + cp div 4096 mod 64) * 64 + cp div 64 mod 64) * 64
        + cp mod 64 = cp" unfolding d(1) by (simp add: d(2))
    show ?thesis
      unfolding u append_Cons append_Nil dec_lead4[OF l] lead_mod(3)[OF q8]
        dec_cont3[OF r1 r2] cont_byte(3) dec_cont2[OF cont_byte(1,2)]
        dec_last[OF cont_byte(1,2)] c ..
  qed
qed


lemma utf8_decode_concat:
  "\<forall>cp \<in> set cps. scalar_value cp \<Longrightarrow>
   utf8_decode 0 0 0x80 0xBF (concat (map utf8_of cps)) = cps"
  by (induction cps) (simp_all add: utf8_decode_one)

lemma scalars_scalar_value:
  "\<forall>u \<in> set us. u < 0x10000 \<Longrightarrow> \<forall>cp \<in> set (scalars us). scalar_value cp"
proof (induction us rule: scalars.induct)
  case 1
  then show ?case by simp
next
  case (2 c)
  then show ?case by (auto simp: scalar_value_def is_high_def is_low_def)
next
  case (3 c d r)
  have "is_high c \<Longrightarrow> is_low d \<Longrightarrow>
      scalar_value (0x10000 + (c - 0xD800) * 0x400 + (d - 0xDC00))"
    unfolding is_high_def is_low_def scalar_value_def by linarith
  moreover have "scalar_value 0xFFFD" by (simp add: scalar_value_def)
  moreover have "\<not> is_high c \<Longrightarrow> \<not> is_low c \<Longrightarrow> scalar_value c"
    using 3(5) by (auto simp: scalar_value_def is_high_def is_low_def)
  ultimately show ?case using 3 by auto
qed

lemma utf8_of_bytes: "scalar_value cp \<Longrightarrow> \<forall>b \<in> set (utf8_of cp). b < 256"
proof -
  assume "scalar_value cp"
  then have lt: "cp < 0x110000" by (simp add: scalar_value_def)
  have m: "cp mod 64 < 64" "cp div 64 mod 64 < 64" "cp div 4096 mod 64 < 64" by simp_all
  have "cp < 0x800 \<Longrightarrow> cp div 64 < 32" "cp < 0x10000 \<Longrightarrow> cp div 4096 < 16"
    "cp div 262144 < 5" using lt by (simp_all add: divb)
  with m show ?thesis unfolding utf8_of_def by auto
qed

lemma units_of_scalars:
  "well_formed_units us \<Longrightarrow> \<forall>u \<in> set us. u < 0x10000 \<Longrightarrow>
   concat (map units_of (scalars us)) = us"
proof (induction us rule: scalars.induct)
  case 1
  then show ?case by simp
next
  case (2 c)
  then show ?case by (simp add: units_of_def)
next
  case (3 c d r)
  show ?case
  proof (cases "is_high c")
    case True
    with 3(5) have l: "is_low d" and w: "well_formed_units r" by simp_all
    define x where "x = c - 0xD800"
    define y where "y = d - 0xDC00"
    from True l have xy: "c = 0xD800 + x" "d = 0xDC00 + y" "y < 0x400"
      unfolding x_def y_def is_high_def is_low_def by linarith+
    have "(x * 0x400 + y) div 0x400 = x" "(x * 0x400 + y) mod 0x400 = y"
      using xy(3) by simp_all
    then have "units_of (0x10000 + (c - 0xD800) * 0x400 + (d - 0xDC00)) = [c, d]"
      unfolding units_of_def xy(1,2) by simp
    moreover have "concat (map units_of (scalars r)) = r"
      using 3(1)[OF True l w] 3(6) by simp
    ultimately show ?thesis using True l by simp
  next
    case False
    with 3(5) have nl: "\<not> is_low c" and w: "well_formed_units (d # r)" by simp_all
    have "concat (map units_of (scalars (d # r))) = d # r"
      using 3(4)[OF False nl w] 3(6) by simp
    moreover have "units_of c = [c]" using 3(6) by (simp add: units_of_def)
    ultimately show ?thesis using False nl by simp
  qed
qed

lemma strip_bom_scalars:
  "\<not> prefix [0xFEFF] us \<Longrightarrow> strip_bom (scalars us) = scalars us"
  by (induction us rule: scalars.induct) (auto simp: is_high_def is_low_def)

lemma map_unat_of_nat8:
  "\<forall>n \<in> set ns. n < 256 \<Longrightarrow> map unat (map of_nat ns :: 8 word list) = ns"
  by (induction ns) (simp_all add: unat_of_nat)

lemma map_of_nat_unat16: "map of_nat (map unat (s :: 16 word list)) = s"
  by (induction s) simp_all

lemma unat16_lt: "\<forall>u \<in> set (map unat (s :: 16 word list)). u < 0x10000"
proof
  fix u assume "u \<in> set (map unat s)"
  then obtain w :: "16 word" where "u = unat w" by auto
  moreover have "unat w < 2 ^ LENGTH(16)" by (rule unsigned_less)
  ultimately show "u < 0x10000" by simp
qed

lemma encode_bytes:
  "map unat (TextEncoder_encode s) = concat (map utf8_of (scalars (map unat s)))"
proof -
  have "\<forall>b \<in> set (concat (map utf8_of (scalars (map unat s)))). b < 256"
    using scalars_scalar_value[OF unat16_lt[of s]] utf8_of_bytes by auto
  then show ?thesis unfolding TextEncoder_encode_def by (rule map_unat_of_nat8)
qed

lemma decode_encode_scalars:
  "utf8_decode 0 0 0x80 0xBF (map unat (TextEncoder_encode s)) = scalars (map unat s)"
  unfolding encode_bytes
  by (rule utf8_decode_concat) (rule scalars_scalar_value[OF unat16_lt])

lemma TextDecoder_TextEncoder:
  assumes "well_formed s" and "\<not> prefix [0xFEFF] s"
  shows "TextDecoder_decode (TextEncoder_encode s) = s"
proof -
  from assms(2) have "\<not> prefix [0xFEFF] (map unat s)"
    by (cases s) (auto simp: word_unat_eq_iff)
  then have "strip_bom (scalars (map unat s)) = scalars (map unat s)"
    by (rule strip_bom_scalars)
  moreover have "concat (map units_of (scalars (map unat s))) = map unat s"
    using assms(1) unat16_lt[of s] unfolding well_formed_def by (rule units_of_scalars)
  ultimately show ?thesis
    unfolding TextDecoder_decode_def decode_encode_scalars by (simp only: map_of_nat_unat16)
qed

lemma TextEncoder_inj:
  assumes "well_formed s" "well_formed t" "TextEncoder_encode s = TextEncoder_encode t"
  shows "s = t"
proof -
  from assms(3) have "scalars (map unat s) = scalars (map unat t)"
    using decode_encode_scalars[of s] decode_encode_scalars[of t] by simp
  then have "concat (map units_of (scalars (map unat s)))
      = concat (map units_of (scalars (map unat t)))" by simp
  then have "map unat s = map unat t"
    using assms(1,2) unat16_lt units_of_scalars unfolding well_formed_def by metis
  then have "map of_nat (map unat s) = (map of_nat (map unat t) :: 16 word list)" by simp
  then show ?thesis by (simp only: map_of_nat_unat16)
qed


lemma div_mod_pack: "x < k \<Longrightarrow> (h * k + x) div k = (h::nat)" "x < k \<Longrightarrow> (h * k + x) mod k = x"
  by simp_all

lemma octets_sextets: "\<forall>b \<in> set bs. b < 256 \<Longrightarrow> octets (sextets bs) = bs"
proof (induction bs rule: sextets.induct)
  case (1 a b c r)
  from 1(2) have "b div 16 < 16" "c div 64 < 4"
    by (simp_all add: div_less_iff_less_mult)
  then have "a div 4 * 4 + (a mod 4 * 16 + b div 16) div 16 = a"
    "(a mod 4 * 16 + b div 16) mod 16 * 16 + (b mod 16 * 4 + c div 64) div 4 = b"
    "(b mod 16 * 4 + c div 64) mod 4 * 64 + c mod 64 = c"
    by (simp_all only: div_mod_pack div_mult_mod_eq)
  with 1 show ?case by simp
next
  case (2 a b)
  then have "b div 16 < 16" by (simp add: div_less_iff_less_mult)
  then have "a div 4 * 4 + (a mod 4 * 16 + b div 16) div 16 = a"
    by (simp only: div_mod_pack div_mult_mod_eq)
  then show ?case by simp
next
  case (3 a)
  then show ?case by simp
next
  case 4
  then show ?case by simp
qed

lemma sextets_lt: "\<forall>b \<in> set bs. b < 256 \<Longrightarrow> \<forall>v \<in> set (sextets bs). v < 64"
proof (induction bs rule: sextets.induct)
  case (1 a b c r)
  from 1(2) have "a div 4 < 64" "b div 16 < 16" "c div 64 < 4" "a mod 4 < 4" "b mod 16 < 16"
    "c mod 64 < 64"
    by (simp_all add: div_less_iff_less_mult)
  then have "a div 4 < 64" "a mod 4 * 16 + b div 16 < 64" "b mod 16 * 4 + c div 64 < 64"
    "c mod 64 < 64" by linarith+
  with 1 show ?case by simp
next
  case (2 a b)
  then have "a div 4 < 64" "b div 16 < 16" "a mod 4 < 4" "b mod 16 < 16"
    by (simp_all add: div_less_iff_less_mult)
  then have "a div 4 < 64" "a mod 4 * 16 + b div 16 < 64" "b mod 16 * 4 < 64"
    by linarith+
  then show ?case by simp
next
  case (3 a)
  then have "a div 4 < 64" "a mod 4 < 4" by (simp_all add: div_less_iff_less_mult)
  then have "a div 4 < 64" "a mod 4 * 16 < 64" by linarith+
  then show ?case by simp
next
  case 4
  then show ?case by simp
qed

lemma length_sextets:
  "(length (sextets bs) + (3 - length bs mod 3) mod 3) mod 4 = 0 \<and>
   length (sextets bs) mod 4 \<noteq> 1"
proof (induction bs rule: sextets.induct)
  case (1 a b c r)
  have "length (a # b # c # r) mod 3 = length r mod 3"
    "length (sextets (a # b # c # r)) = length (sextets r) + 4"
    by simp_all
  moreover have "\<And>n p::nat. (n + p) mod 4 = 0 \<and> n mod 4 \<noteq> 1 \<Longrightarrow>
      (n + 4 + p) mod 4 = 0 \<and> (n + 4) mod 4 \<noteq> 1"
    by presburger
  ultimately show ?case using 1 by (simp only:)
qed simp_all

lemma b64_value_char: "n < 64 \<Longrightarrow> b64_value (b64_char n) = Some n"
  unfolding b64_value_def b64_char_def by auto

lemma b64_char_plain: "n < 64 \<Longrightarrow> b64_char n \<noteq> 61 \<and> \<not> ascii_whitespace (b64_char n)
    \<and> b64_char n < 256"
  unfolding b64_char_def ascii_whitespace_def by auto

lemma those_values_chars:
  "\<forall>v \<in> set vs. v < 64 \<Longrightarrow> those_values (map b64_char vs) = Some vs"
  by (induction vs) (simp_all add: b64_value_char)


lemma strip_padding_pad:
  assumes "(length X + p) mod 4 = 0" "p \<le> 2" "\<forall>x \<in> set X. x \<noteq> 61"
  shows "strip_padding (X @ replicate p 61) = X"
proof -
  have l: "X \<noteq> [] \<Longrightarrow> last X \<noteq> 61" using assms(3) last_in_set by blast
  from assms(2) consider "p = 0" | "p = 1" | "p = 2" by linarith
  then show ?thesis
  proof cases
    case 1
    then show ?thesis using l by (simp add: strip_padding_def)
  next
    case 2
    with assms(1) have "X \<noteq> []" by auto
    with 2 assms(1) l show ?thesis by (simp add: strip_padding_def)
  next
    case 3
    then have r: "replicate p (61::nat) = [61, 61]" by (simp add: numeral_2_eq_2)
    have "butlast (X @ [61, 61::nat]) = X @ [61]" by (simp add: butlast_append)
    with 3 assms(1) show ?thesis unfolding r by (simp add: strip_padding_def)
  qed
qed

lemma unat_ucast_byte: "unat (ucast (b :: 8 word) :: 16 word) = unat b"
proof -
  have "unat b < 2 ^ LENGTH(8)" by (rule unsigned_less)
  then have "unat b < 2 ^ 16" by simp
  then show ?thesis by (simp add: unsigned_ucast_eq take_bit_nat_eq_self)
qed

lemma unat_fromCharCode: "map unat (fromCharCode bs) = map unat bs"
  unfolding fromCharCode_def by (induction bs) (simp_all add: unat_ucast_byte)

lemma map_unat_of_nat16:
  "\<forall>n \<in> set ns. n < 256 \<Longrightarrow> map unat (map of_nat ns :: 16 word list) = ns"
  by (induction ns) (simp_all add: unat_of_nat)

lemma unat8_lt: "\<forall>u \<in> set (map unat (bs :: 8 word list)). u < 256"
proof
  fix u assume "u \<in> set (map unat bs)"
  then obtain w :: "8 word" where "u = unat w" by auto
  moreover have "unat w < 2 ^ LENGTH(8)" by (rule unsigned_less)
  ultimately show "u < 256" by simp
qed


lemma btoa_fromCharCode: "btoa (fromCharCode bs) = Some (base64 bs)"
proof -
  have "\<not> (\<exists>c \<in> set (fromCharCode bs). 0xFF < c)"
  proof
    assume "\<exists>c \<in> set (fromCharCode bs). 0xFF < c"
    then obtain c where c: "c \<in> set (fromCharCode bs)" "0xFF < c" by blast
    then have "unat c \<in> set (map unat (fromCharCode bs))" by simp
    then have "unat c < 256" using unat8_lt[of bs] by (simp only: unat_fromCharCode)
    with c(2) show False by (simp add: word_less_nat_alt)
  qed
  moreover have "length (fromCharCode bs) = length bs" by (simp add: fromCharCode_def)
  ultimately show ?thesis
    unfolding btoa_def base64_def unat_fromCharCode by simp
qed

lemma atob_base64: "atob (base64 bs) = Some (fromCharCode bs)"
proof -
  let ?ns = "map unat bs"
  let ?X = "map b64_char (sextets ?ns)"
  let ?p = "(3 - length bs mod 3) mod 3"
  have v: "\<forall>v \<in> set (sextets ?ns). v < 64" using unat8_lt by (rule sextets_lt)
  then have x: "\<forall>x \<in> set ?X. x \<noteq> 61 \<and> \<not> ascii_whitespace x \<and> x < 256"
    using b64_char_plain by auto
  then have small: "\<forall>n \<in> set (?X @ replicate ?p 61). n < 256" by auto
  have u: "map unat (base64 bs) = ?X @ replicate ?p 61"
    unfolding base64_def using small by (rule map_unat_of_nat16)
  have f: "filter (\<lambda>c. \<not> ascii_whitespace c) (?X @ replicate ?p 61) = ?X @ replicate ?p 61"
    using x by (auto simp: filter_id_conv ascii_whitespace_def)
  have len: "(length ?X + ?p) mod 4 = 0" "length ?X mod 4 \<noteq> 1"
    using length_sextets[of ?ns] by simp_all
  have "?p < 3" by (rule mod_less_divisor) simp
  then have "?p \<le> 2" by linarith
  with len(1) x have s: "strip_padding (?X @ replicate ?p 61) = ?X"
    by (intro strip_padding_pad) auto
  have t: "those_values ?X = Some (sextets ?ns)" using v by (rule those_values_chars)
  have o: "octets (sextets ?ns) = ?ns" using unat8_lt by (rule octets_sextets)
  have "map of_nat ?ns = fromCharCode bs"
    unfolding fromCharCode_def by (induction bs) simp_all
  then show ?thesis
    unfolding atob_def u f s using len(2) by (simp add: t o)
qed

lemma charCodes_fromCharCode: "charCodes (fromCharCode bs) = bs"
  unfolding charCodes_def fromCharCode_def
  by (induction bs) (simp_all add: ucast_up_ucast_id is_up)

lemma base64_inj: "base64 a = base64 b \<Longrightarrow> a = b"
proof -
  assume "base64 a = base64 b"
  then have "atob (base64 a) = atob (base64 b)" by simp
  then have "charCodes (fromCharCode a) = charCodes (fromCharCode b)"
    by (simp only: atob_base64 option.inject)
  then show ?thesis by (simp only: charCodes_fromCharCode)
qed

section \<open>Properties of the model\<close>

lemma length_fresh: "length (fresh_salt rnd) = 16" "length (fresh_iv rnd) = 12"
  by (simp_all add: fresh_salt_def fresh_iv_def generateRandomBytes_def saltLength_def
      ivLength_def)

lemma encrypt_Inr:
  assumes "encrypt H rnd P W = Inr env"
  obtains key c where "deriveKey H W (fresh_salt rnd) = Some key"
    and "aes_gcm_encrypt H key (fresh_iv rnd) (TextEncoder_encode P) = Some c"
    and "env = base64 (fresh_salt rnd @ fresh_iv rnd @ c)"
  using assms
  unfolding encrypt_def fresh_salt_def fresh_iv_def
  by (auto simp: Let_def btoa_fromCharCode split: prod.splits option.splits)

lemma decrypt_base64:
  assumes "length salt = 16" "length iv = 12"
  shows "decrypt H (base64 (salt @ iv @ c)) W =
    (case deriveKey H W salt of None \<Rightarrow> Inl decrypt_failed
     | Some key \<Rightarrow> (case aes_gcm_decrypt H key iv c of None \<Rightarrow> Inl decrypt_failed
        | Some d \<Rightarrow> Inr (TextDecoder_decode d)))"
proof -
  from assms have "take 16 (salt @ iv @ c) = salt" "take 12 (drop 16 (salt @ iv @ c)) = iv"
    "drop 28 (salt @ iv @ c) = c" by simp_all
  note f = this
  show ?thesis
    by (simp add: decrypt_def atob_base64 charCodes_fromCharCode slice_def saltLength_def
        ivLength_def Let_def f del: take_append drop_append cong: option.case_cong)
qed

lemma decrypt_encrypt:
  assumes "aead_correct H" "encrypt H rnd P W = Inr env"
  shows "decrypt H env W = Inr (TextDecoder_decode (TextEncoder_encode P))"
proof -
  from assms(2) obtain key c where k: "deriveKey H W (fresh_salt rnd) = Some key"
    and c: "aes_gcm_encrypt H key (fresh_iv rnd) (TextEncoder_encode P) = Some c"
    and e: "env = base64 (fresh_salt rnd @ fresh_iv rnd @ c)"
    by (rule encrypt_Inr)
  from assms(1) c have "aes_gcm_decrypt H key (fresh_iv rnd) c = Some (TextEncoder_encode P)"
    unfolding aead_correct_def by blast
  with k show ?thesis unfolding e by (simp add: decrypt_base64 length_fresh)
qed

lemma aead_correct_demo: "aead_correct demo_host"
  by (simp add: aead_correct_def demo_host_def demo_decrypt_def)

lemma hashPassword_Inr:
  assumes "hashPassword H rnd W None = Inr stored"
  obtains h where
    "pbkdf2_deriveBits H (TextEncoder_encode W) (fresh_salt rnd) iterations 256 = Some h"
    and "stored = base64 (fresh_salt rnd @ h)"
  using assms unfolding hashPassword_def fresh_salt_def
  by (auto simp: Let_def btoa_fromCharCode split: option.splits)

lemma verifyPassword_try_base64:
  assumes "length salt = 16"
  shows "verifyPassword_try H rnd W (base64 (salt @ h)) =
    (case pbkdf2_deriveBits H (TextEncoder_encode W) salt iterations 256 of
       None \<Rightarrow> Inl OperationError
     | Some h' \<Rightarrow> Inr (h' = h))"
proof -
  from assms have f: "take 16 (salt @ h) = salt" by simp
  have "hashPassword H rnd W (Some salt) =
    (case pbkdf2_deriveBits H (TextEncoder_encode W) salt iterations 256 of
       None \<Rightarrow> Inl OperationError
     | Some h' \<Rightarrow> Inr (base64 (salt @ h')))"
    by (simp add: hashPassword_def Let_def btoa_fromCharCode split: option.splits)
  moreover have "\<And>h'. base64 (salt @ h') = base64 (salt @ h) \<longleftrightarrow> h' = h"
    using base64_inj by auto
  ultimately show ?thesis
    by (simp add: verifyPassword_try_def atob_base64 charCodes_fromCharCode slice_def
        saltLength_def Let_def f del: take_append split: option.splits)
qed

lemma vault_loop_find:
  "vault_loop H nd es = map_option vault_credentials (find (domain_matches H nd) es)"
  by (induction es) (auto simp: domain_matches_def vault_credentials_def Let_def)

lemma bg_loop_find:
  "bg_loop H nd es = map_option bg_credentials (find (domain_matches H nd) es)"
  by (induction es) (auto simp: domain_matches_def bg_credentials_def Let_def)

lemma getPasswordForDomain_find:
  "getPasswordForDomain H st domain =
     (if currentUser st = None then None
      else map_option vault_credentials
             (find (domain_matches H (normalize_domain H domain)) (entries st)))"
  by (simp add: getPasswordForDomain_def vault_loop_find)

lemma bg_getPasswordForDomain_find:
  "bg_getPasswordForDomain H b domain =
     (if \<not> isUserLoggedIn b then None
      else map_option bg_credentials
             (find (domain_matches H (normalize_domain H domain)) (passwordData b)))"
  by (cases "passwordData b") (simp_all add: bg_getPasswordForDomain_def bg_loop_find)

lemma replace_prefix: "prefix p s \<Longrightarrow> p \<noteq> [] \<Longrightarrow> replace p [] s = drop (length p) s"
  by (cases s) simp_all

lemma replace_absent: "\<not> str_includes s p \<Longrightarrow> replace p r s = s"
  by (induction s) auto

lemma normalize_domain_leading:
  assumes "prefix (js ''www.'') (toLowerCase H domain) \<or>
           \<not> str_includes (toLowerCase H domain) (js ''www.'')"
  shows "normalize_domain H domain = strip_leading_www (toLowerCase H domain)"
proof -
  have l: "length (js ''www.'') = 4" "js ''www.'' \<noteq> []" by (simp_all add: js_def)
  show ?thesis
  proof (cases "prefix (js ''www.'') (toLowerCase H domain)")
    case True
    then show ?thesis
      unfolding normalize_domain_def strip_leading_www_def
      using replace_prefix[OF True l(2)] l(1) by simp
  next
    case False
    with assms have "\<not> str_includes (toLowerCase H domain) (js ''www.'')" by simp
    with False show ?thesis
      unfolding normalize_domain_def strip_leading_www_def by (simp add: replace_absent)
  qed
qed

lemma saveUserEntries_fields:
  "entries (fst (saveUserEntries H rnd st)) = entries st"
  "currentUser (fst (saveUserEntries H rnd st)) = currentUser st"
  "editingEntryId (fst (saveUserEntries H rnd st)) = editingEntryId st"
  by (simp_all add: saveUserEntries_def split: option.splits sum.splits)

lemma handleAddEntry_entries:
  "entries (fst (handleAddEntry H rnd now isoTime name uname pw st)) = entries st \<or>
   entries (fst (handleAddEntry H rnd now isoTime name uname pw st)) =
     entries st @ [\<lparr>entry_id = toString now, platform = capitalizePlatform H (trim name),
                     username = trim uname, password = pw, createdAt = isoTime,
                     updatedAt = None\<rparr>]"
  by (simp add: handleAddEntry_def Let_def case_prod_beta saveUserEntries_fields)

lemma handleAddEntry_added:
  assumes "trim name \<noteq> []" "trim uname \<noteq> []" "pw \<noteq> []"
    and "\<not> (\<exists>e \<in> set (entries st). toLowerCase H (platform e) = toLowerCase H (trim name))"
  shows "entries (fst (handleAddEntry H rnd now isoTime name uname pw st)) =
     entries st @ [\<lparr>entry_id = toString now, platform = capitalizePlatform H (trim name),
                     username = trim uname, password = pw, createdAt = isoTime,
                     updatedAt = None\<rparr>]"
  using assms
  by (simp add: handleAddEntry_def Let_def case_prod_beta saveUserEntries_fields)

lemma handleAddEntry_dup:
  assumes "trim name \<noteq> []" "trim uname \<noteq> []" "pw \<noteq> []"
    and "\<exists>e \<in> set (entries st). toLowerCase H (platform e) = toLowerCase H (trim name)"
  shows "handleAddEntry H rnd now isoTime name uname pw st =
     (st, [Alert ''An entry for this platform already exists!''])"
  using assms by (simp add: handleAddEntry_def Let_def)

lemma gmail_facts:
  "trim (js ''Gmail'') = js ''Gmail''" "trim (js ''gmail'') = js ''gmail''"
  "js ''Gmail'' \<noteq> []" "js ''gmail'' \<noteq> []"
  by (simp_all add: trim_def js_def is_space_def)

lemma gmail_case:
  assumes "ascii_case_host H"
  shows "toLowerCase H (js ''Gmail'') = js ''gmail''" "toLowerCase H (js ''gmail'') = js ''gmail''"
    "capitalizePlatform H (js ''Gmail'') = js ''Gmail''"
proof -
  have a: "list_all (\<lambda>c. c < 0x80) (js ''Gmail'')" "list_all (\<lambda>c. c < 0x80) (js ''gmail'')"
    "list_all (\<lambda>c. c < 0x80) (take 1 (js ''Gmail''))"
    "list_all (\<lambda>c. c < 0x80) (drop 1 (js ''Gmail''))"
    by (simp_all add: js_def)
  from assms a(1) show "toLowerCase H (js ''Gmail'') = js ''gmail''"
    unfolding ascii_case_host_def by (simp add: js_def ascii_lower_def)
  from assms a(2) show "toLowerCase H (js ''gmail'') = js ''gmail''"
    unfolding ascii_case_host_def by (simp add: js_def ascii_lower_def)
  from assms a(3,4) have "toUpperCase H (take 1 (js ''Gmail'')) = map ascii_upper (take 1 (js ''Gmail''))"
    "toLowerCase H (drop 1 (js ''Gmail'')) = map ascii_lower (drop 1 (js ''Gmail''))"
    unfolding ascii_case_host_def by blast+
  then show "capitalizePlatform H (js ''Gmail'') = js ''Gmail''"
    unfolding capitalizePlatform_def by (simp add: js_def ascii_lower_def ascii_upper_def)
qed

lemma undigits_snoc: "undigits (ds @ [d]) = 10 * undigits ds + d"
  by (simp add: undigits_def)

lemma undigits_digits: "undigits (digits n) = n"
proof (induction n rule: digits.induct)
  case (1 n)
  show ?case
  proof (cases "n < 10")
    case True
    then show ?thesis by (subst digits.simps) (simp add: undigits_def)
  next
    case False
    with 1 have "undigits (digits (n div 10)) = n div 10" by simp
    with False show ?thesis by (subst digits.simps) (simp add: undigits_snoc)
  qed
qed

lemma digits_digit: "\<forall>d \<in> set (digits n). d < 10"
proof (induction n rule: digits.induct)
  case (1 n)
  show ?case
  proof (cases "n < 10")
    case True
    then show ?thesis by (subst digits.simps) simp
  next
    case False
    with 1 have "\<forall>d \<in> set (digits (n div 10)). d < 10" by simp
    with False show ?thesis by (subst digits.simps) simp
  qed
qed

lemma digits_nonempty: "digits n \<noteq> []"
  by (subst digits.simps) simp

lemma unat_digit_char:
  assumes "d < 10"
  shows "unat (digit_char d) = 48 + d"
proof -
  have "unat (of_nat (48 + d) :: 16 word) = (48 + d) mod 2 ^ LENGTH(16)"
    by (rule unat_of_nat)
  also have "\<dots> = 48 + d" using assms by simp
  finally show ?thesis by (simp only: digit_char_def)
qed

lemma digit_chars_inj:
  assumes "map digit_char xs = map digit_char ys"
    and "\<forall>d \<in> set xs. d < 10" "\<forall>d \<in> set ys. d < 10"
  shows "xs = ys"
proof -
  have "map unat (map digit_char xs) = map (\<lambda>d. 48 + d) xs"
    using assms(2) by (simp add: unat_digit_char)
  moreover have "map unat (map digit_char ys) = map (\<lambda>d. 48 + d) ys"
    using assms(3) by (simp add: unat_digit_char)
  ultimately have "map (\<lambda>d. 48 + d) xs = map (\<lambda>d. 48 + d) ys"
    using assms(1) by simp
  then show ?thesis by (simp add: inj_map_eq_map inj_def)
qed

lemma digit_chars_no_minus: "map digit_char (digits n) \<noteq> 45 # cs"
proof
  assume a: "map digit_char (digits n) = 45 # cs"
  obtain d ds where d: "digits n = d # ds" using digits_nonempty by (cases "digits n") auto
  with digits_digit[of n] have "d < 10" by simp
  then have "unat (digit_char d) = 48 + d" by (rule unat_digit_char)
  moreover from a d have "digit_char d = 45" by simp
  ultimately show False by simp
qed

lemma toString_inj: "toString a = toString b \<Longrightarrow> a = b"
proof -
  assume e: "toString a = toString b"
  have n: "\<And>m n. map digit_char (digits m) = map digit_char (digits n) \<Longrightarrow> m = n"
  proof -
    fix m n
    assume "map digit_char (digits m) = map digit_char (digits n)"
    then have "digits m = digits n" by (rule digit_chars_inj) (rule digits_digit)+
    then have "undigits (digits m) = undigits (digits n)" by simp
    then show "m = n" by (simp only: undigits_digits)
  qed
  show ?thesis
  proof (cases "a < 0"; cases "b < 0")
    assume "a < 0" "b < 0"
    with e have "nat (- a) = nat (- b)" by (intro n) (simp add: toString_def)
    with \<open>a < 0\<close> \<open>b < 0\<close> show ?thesis by simp
  next
    assume "a < 0" "\<not> b < 0"
    with e digit_chars_no_minus[of "nat b"] show ?thesis
      by (simp add: toString_def) metis
  next
    assume "\<not> a < 0" "b < 0"
    with e digit_chars_no_minus[of "nat a"] show ?thesis
      by (simp add: toString_def)
  next
    assume "\<not> a < 0" "\<not> b < 0"
    with e have "nat a = nat b" by (intro n) (simp add: toString_def)
    with \<open>\<not> a < 0\<close> \<open>\<not> b < 0\<close> show ?thesis by simp
  qed
qed

lemma bg_step_logged_out:
  assumes "\<not> is_logged_in_message ev" "\<not> isUserLoggedIn b" "stored_logged_out b"
  shows "\<not> isUserLoggedIn (bg_step b ev) \<and> stored_logged_out (bg_step b ev)"
proof (cases ev)
  case (VaultUpdate m)
  with assms show ?thesis
    by (cases m)
      (simp_all add: stored_logged_out_def Let_def logged_out_first_def logged_out_second_def)
next
  case Restart
  with assms show ?thesis
    by (auto simp: restart_def constructor_def loadStoredData_def loadStoredData_userStatus_def
        loadStoredData_passwordData_def stored_logged_out_def Let_def
        split: option.splits prod.splits)
qed

lemma bg_run_logged_out:
  "list_all (\<lambda>ev. \<not> is_logged_in_message ev) evs \<Longrightarrow> \<not> isUserLoggedIn b \<Longrightarrow>
   stored_logged_out b \<Longrightarrow> \<not> isUserLoggedIn (foldl bg_step b evs)"
proof (induction evs arbitrary: b)
  case Nil
  then show ?case by simp
next
  case (Cons ev evs)
  from Cons.prems have "\<not> isUserLoggedIn (bg_step b ev) \<and> stored_logged_out (bg_step b ev)"
    by (intro bg_step_logged_out) simp_all
  with Cons show ?case by simp
qed

lemma handleRegister_currentUser:
  "currentUser (fst (handleRegister H rnd isoTime e pw c st)) = currentUser st"
  by (simp add: handleRegister_def split: option.splits sum.splits)

lemma handleAddEntry_currentUser:
  "currentUser (fst (handleAddEntry H rnd now isoTime n u p st)) = currentUser st"
  by (simp add: handleAddEntry_def Let_def case_prod_beta saveUserEntries_fields)

lemma handleEditEntry_currentUser:
  "currentUser (fst (handleEditEntry H rnd isoTime n u p st)) = currentUser st"
  by (simp add: handleEditEntry_def Let_def case_prod_beta saveUserEntries_fields closeModal_def
      split: option.splits)

lemma handleDeleteEntry_currentUser:
  "currentUser (fst (handleDeleteEntry H rnd c i st)) = currentUser st"
  by (simp add: handleDeleteEntry_def Let_def case_prod_beta saveUserEntries_fields)

lemma vault_step_currentUser:
  "\<not> is_Login ev \<Longrightarrow> currentUser st = None \<Longrightarrow> currentUser (vault_step H st ev) = None"
  by (cases ev)
    (simp_all add: handleRegister_currentUser handleAddEntry_currentUser
      handleEditEntry_currentUser handleDeleteEntry_currentUser handleLogout_def
      openEditModal_def closeModal_def split: option.splits)

lemma vault_run_currentUser:
  "list_all (\<lambda>ev. \<not> is_Login ev) evs \<Longrightarrow> currentUser st = None \<Longrightarrow>
   currentUser (foldl (vault_step H) st evs) = None"
  by (induction evs arbitrary: st) (simp_all add: vault_step_currentUser)

lemma entries_key: "js ''entries_'' @ e \<noteq> js ''currentUser''"
  by (simp add: js_def)

lemma handleLogin_success:
  assumes "stored_users H st = Some users" "users e = Some u"
    and "verifyPassword H rnd pw (hashedPassword u) = Inr True"
  shows "handleLogin H rnd e pw st =
     (let st1 = st\<lparr>currentUser := Some u, userPassword := Some pw,
         localStorage := (localStorage st)(js ''currentUser'' \<mapsto> stringify_user H u)\<rparr>
      in (st1\<lparr>entries := (case loadUserEntries_try H st1 of Inl x \<Rightarrow> [] | Inr es \<Rightarrow> es)\<rparr>,
          [Notify (user_logged_in e)]))"
  using assms
  by (simp add: handleLogin_def loadUserEntries_def Let_def split: sum.splits)

lemma replicate_num: "replicate (numeral k) x = x # replicate (pred_numeral k) x"
  by (simp add: numeral_eq_Suc)

lemma fresh_zero:
  "fresh_salt zero_entropy = [0,0,0,0,0,0,0,0,0,0,0,0,0,0,0,0]"
  "fresh_iv zero_entropy = [0,0,0,0,0,0,0,0,0,0,0,0]"
  by (simp_all add: fresh_salt_def fresh_iv_def generateRandomBytes_def saltLength_def
      ivLength_def zero_entropy_def map_replicate_const replicate_num)

lemma encrypt_eq:
  "encrypt H rnd P W =
    (case deriveKey H W (fresh_salt rnd) of
       None \<Rightarrow> Inl (Error ''Failed to encrypt data'')
     | Some key \<Rightarrow>
         (case aes_gcm_encrypt H key (fresh_iv rnd) (TextEncoder_encode P) of
            None \<Rightarrow> Inl (Error ''Failed to encrypt data'')
          | Some c \<Rightarrow> Inr (base64 (fresh_salt rnd @ fresh_iv rnd @ c))))"
  by (simp add: encrypt_def fresh_salt_def fresh_iv_def Let_def case_prod_beta
      btoa_fromCharCode cong: option.case_cong)

lemma hashPassword_eq:
  "hashPassword H rnd W salt0 =
    (case pbkdf2_deriveBits H (TextEncoder_encode W)
            (case salt0 of None \<Rightarrow> fresh_salt rnd | Some s \<Rightarrow> s) iterations 256 of
       None \<Rightarrow> Inl OperationError
     | Some h \<Rightarrow> Inr (base64 ((case salt0 of None \<Rightarrow> fresh_salt rnd | Some s \<Rightarrow> s) @ h)))"
  by (simp add: hashPassword_def fresh_salt_def Let_def btoa_fromCharCode
      cong: option.case_cong)

lemma encode_ascii:
  "TextEncoder_encode (js ''[]'') = [0x5B, 0x5D]"
  "TextEncoder_encode (js ''pw'') = [0x70, 0x77]"
  "TextEncoder_encode (js ''short'') = [0x73, 0x68, 0x6F, 0x72, 0x74]"
  "TextEncoder_encode (js ''correcthorse1'') =
     [0x63, 0x6F, 0x72, 0x72, 0x65, 0x63, 0x74, 0x68, 0x6F, 0x72, 0x73, 0x65, 0x31]"
  "TextEncoder_encode [0xFEFF] = [0xEF, 0xBB, 0xBF]"
  "TextEncoder_encode [0xD800] = [0xEF, 0xBF, 0xBD]"
  "TextEncoder_encode [0xFFFD] = [0xEF, 0xBF, 0xBD]"
  by (simp_all add: TextEncoder_encode_def utf8_of_def is_high_def is_low_def js_def)

lemma demo_envelope_eq:
  "base64 (fresh_salt zero_entropy @ fresh_iv zero_entropy @ 0x5B # 0x5D #
     fresh_salt zero_entropy @ [0x70, 0x77]) = demo_envelope"
  by (simp add: fresh_zero base64_def b64_char_def js_def demo_envelope_def)

lemma bom_envelope_eq:
  "base64 (fresh_salt zero_entropy @ fresh_iv zero_entropy @ 0xEF # 0xBB # 0xBF #
     fresh_salt zero_entropy @ [0x70, 0x77]) = bom_envelope"
  by (simp add: fresh_zero base64_def b64_char_def js_def bom_envelope_def replicate_num)

lemma encrypt_demo_envelope:
  "encrypt demo_host zero_entropy (js ''[]'') (js ''pw'') = Inr demo_envelope"
  by (simp add: encrypt_eq deriveKey_def demo_host_def encode_ascii demo_envelope_eq)

lemma encrypt_bom_envelope:
  "encrypt demo_host zero_entropy [0xFEFF] (js ''pw'') = Inr bom_envelope"
  by (simp add: encrypt_eq deriveKey_def demo_host_def encode_ascii bom_envelope_eq)

lemma demo_hashes:
  "base64 (fresh_salt zero_entropy @ fresh_salt zero_entropy @
     [0x63, 0x6F, 0x72, 0x72, 0x65, 0x63, 0x74, 0x68, 0x6F, 0x72, 0x73, 0x65, 0x31])
   = hashedPassword demo_user"
  "base64 (fresh_salt zero_entropy @ fresh_salt zero_entropy @ [0x73, 0x68, 0x6F, 0x72, 0x74])
   = hashedPassword short_user"
  "base64 (fresh_salt zero_entropy @ fresh_salt zero_entropy @ [0xEF, 0xBF, 0xBD])
   = js ''AAAAAAAAAAAAAAAAAAAAAAAAAAAAAAAAAAAAAAAAAADvv70=''"
  by (simp_all add: fresh_zero base64_def b64_char_def js_def demo_user_def short_user_def
      replicate_num)

lemma verifyPassword_demo:
  "verifyPassword demo_host rnd W (base64 (fresh_salt zero_entropy @ fresh_salt zero_entropy @ h))
   = Inr (TextEncoder_encode W = h)"
proof -
  have "verifyPassword_try demo_host rnd W
      (base64 (fresh_salt zero_entropy @ (fresh_salt zero_entropy @ h)))
    = Inr (fresh_salt zero_entropy @ TextEncoder_encode W = fresh_salt zero_entropy @ h)"
    by (subst verifyPassword_try_base64) (simp_all add: length_fresh demo_host_def)
  then show ?thesis by (simp add: verifyPassword_def)
qed

lemma lower_ascii:
  "toLowerCase demo_host (js ''www.github.com'') = js ''www.github.com''"
  "toLowerCase demo_host (js ''github.com'') = js ''github.com''"
  "toLowerCase demo_host (js ''example.com'') = js ''example.com''"
  "toLowerCase demo_host (js ''awww.com'') = js ''awww.com''"
  "toLowerCase demo_host (js ''Github'') = js ''github''"
  "toLowerCase demo_host (js ''github'') = js ''github''"
  "toLowerCase demo_host (js ''GITHUB'') = js ''github''"
  "toLowerCase demo_host (js ''Awww'') = js ''awww''"
  by (simp_all add: demo_host_def js_def ascii_lower_def)

lemma demo_matches:
  "domain_matches demo_host (js ''github.com'') demo_entry"
  "\<not> domain_matches demo_host (js ''example.com'') demo_entry"
  "domain_matches demo_host (js ''awww.com'') awww_entry"
  "\<not> domain_matches demo_host (js ''acom'') awww_entry"
  unfolding domain_matches_def demo_entry_def awww_entry_def
  by (simp_all add: lower_ascii) (simp_all add: js_def)

lemma demo_normalize:
  "normalize_domain demo_host (js ''www.github.com'') = js ''github.com''"
  "normalize_domain demo_host (js ''github.com'') = js ''github.com''"
  "normalize_domain demo_host (js ''example.com'') = js ''example.com''"
  "normalize_domain demo_host (js ''awww.com'') = js ''acom''"
  unfolding normalize_domain_def lower_ascii by (simp_all add: js_def)

lemma demo_strip:
  "strip_leading_www (js ''www.github.com'') = js ''github.com''"
  "strip_leading_www (js ''github.com'') = js ''github.com''"
  "strip_leading_www (js ''example.com'') = js ''example.com''"
  "strip_leading_www (js ''awww.com'') = js ''awww.com''"
  by (simp_all add: strip_leading_www_def js_def)

lemma demo_find:
  "find (domain_matches demo_host (normalize_domain demo_host (js ''github.com'')))
     [demo_entry] = Some demo_entry"
  "find (domain_matches demo_host (normalize_domain demo_host (js ''example.com'')))
     [demo_entry] = None"
  by (simp_all add: demo_normalize demo_matches)

lemma decrypt_demo_wrong_password:
  "decrypt demo_host demo_envelope (js ''correcthorse1'') = Inl decrypt_failed"
  unfolding demo_envelope_eq[symmetric]
  by (subst decrypt_base64)
    (simp_all add: length_fresh deriveKey_def demo_host_def demo_decrypt_def encode_ascii
      fresh_zero)

lemma demo_keys:
  "js ''entries_'' @ email demo_user = js ''entries_a@x.com''"
  "js ''entries_a@x.com'' \<noteq> js ''users''" "js ''users'' \<noteq> js ''entries_a@x.com''"
  "js ''a@x.com'' \<noteq> js ''b@x.com''" "js ''b@x.com'' \<noteq> js ''a@x.com''"
  "js ''demo'' \<noteq> []" "js ''demo'' \<noteq> js ''{}''" "demo_envelope \<noteq> []"
  by (simp_all add: js_def demo_user_def demo_envelope_def)

lemma demo_stored_users:
  "stored_users demo_host locked_vault = Some demo_users"
  "stored_users demo_host demo_vault = Some demo_users"
  "demo_users (js ''a@x.com'') = Some demo_user"
  "demo_users (js ''b@x.com'') = Some short_user"
  by (simp_all add: stored_users_def locked_vault_def demo_vault_def demo_host_def demo_keys
      demo_users_def)

lemma demo_verify:
  "verifyPassword demo_host zero_entropy (js ''correcthorse1'') (hashedPassword demo_user)
     = Inr True"
  "verifyPassword demo_host zero_entropy (js ''short'') (hashedPassword short_user) = Inr True"
  unfolding demo_hashes[symmetric] verifyPassword_demo by (simp_all add: encode_ascii)

lemma ascii_case_host_demo: "ascii_case_host demo_host"
  by (simp add: ascii_case_host_def demo_host_def)

lemma demo_trims:
  "trim (js '' GITHUB '') = js ''GITHUB''" "trim (js ''hubber'') = js ''hubber''"
  "trim (js ''bob'') = js ''bob''" "trim (js ''github'') = js ''github''"
  "trim (js ''Twitter'') = js ''Twitter''" "trim (js ''Gmail'') = js ''Gmail''"
  "trim [] = []"
  "js ''GITHUB'' \<noteq> []" "js ''hubber'' \<noteq> []" "js ''bob'' \<noteq> []" "js ''pw'' \<noteq> []"
  "js ''p@ss'' \<noteq> []" "js ''github'' \<noteq> []" "js ''Twitter'' \<noteq> []" "js ''Gmail'' \<noteq> []"
  by (simp_all add: trim_def js_def is_space_def)

lemma toString_small:
  "toString 1000 = js ''1000''" "toString 1001 = js ''1001''"
  by (simp_all add: toString_def digits.simps digit_char_def js_def)

lemma demo_ids:
  "js ''1000'' \<noteq> js ''1''" "js ''1001'' \<noteq> js ''1''" "js ''1000'' \<noteq> js ''1001''"
  "js ''1'' \<noteq> js ''1000''" "js ''1'' \<noteq> js ''1001''" "js ''1001'' \<noteq> js ''1000''"
  by (simp_all add: js_def)

lemma lower_more:
  "toLowerCase demo_host (js ''Twitter'') = js ''twitter''"
  "toLowerCase demo_host (js ''Gmail'') = js ''gmail''"
  "capitalizePlatform demo_host (js ''Twitter'') = js ''Twitter''"
  "capitalizePlatform demo_host (js ''Gmail'') = js ''Gmail''"
  "js ''github'' \<noteq> js ''twitter''" "js ''github'' \<noteq> js ''gmail''"
  "js ''twitter'' \<noteq> js ''gmail''"
  by (simp_all add: capitalizePlatform_def demo_host_def js_def ascii_lower_def ascii_upper_def)

lemma add_twitter:
  assumes "\<forall>e \<in> set (entries st). toLowerCase demo_host (platform e) \<noteq> js ''twitter''"
  shows "entries (fst (handleAddEntry demo_host rnd now demo_time (js ''Twitter'') (js ''bob'')
      (js ''p@ss'') st)) = entries st @ [twitter_entry now]"
    and "last (snd (handleAddEntry demo_host rnd now demo_time (js ''Twitter'') (js ''bob'')
      (js ''p@ss'') st)) = Alert ''Password entry added successfully!''"
  using assms
  by (simp_all add: handleAddEntry_def Let_def case_prod_beta saveUserEntries_fields demo_trims
      lower_more twitter_entry_def)

lemma add_gmail:
  assumes "\<forall>e \<in> set (entries st). toLowerCase demo_host (platform e) \<noteq> js ''gmail''"
  shows "entries (fst (handleAddEntry demo_host rnd now demo_time (js ''Gmail'') (js ''bob'')
      (js ''p@ss'') st)) = entries st @ [gmail_entry now]"
    and "last (snd (handleAddEntry demo_host rnd now demo_time (js ''Gmail'') (js ''bob'')
      (js ''p@ss'') st)) = Alert ''Password entry added successfully!''"
  using assms
  by (simp_all add: handleAddEntry_def Let_def case_prod_beta saveUserEntries_fields demo_trims
      lower_more gmail_entry_def)

lemma add_all_two_adds:
  assumes "\<forall>e \<in> set (entries st). toLowerCase demo_host (platform e) \<noteq> js ''twitter'' \<and>
      toLowerCase demo_host (platform e) \<noteq> js ''gmail''"
  shows "entries (add_all demo_host st (two_adds t1 t2)) =
     entries st @ [twitter_entry t1, gmail_entry t2]"
proof -
  let ?st1 = "fst (handleAddEntry demo_host zero_entropy t1 demo_time (js ''Twitter'')
      (js ''bob'') (js ''p@ss'') st)"
  from assms have 1: "entries ?st1 = entries st @ [twitter_entry t1]"
    by (intro add_twitter) simp
  with assms have "\<forall>e \<in> set (entries ?st1). toLowerCase demo_host (platform e) \<noteq> js ''gmail''"
    by (simp add: twitter_entry_def lower_more)
  then have "entries (fst (handleAddEntry demo_host zero_entropy t2 demo_time (js ''Gmail'')
      (js ''bob'') (js ''p@ss'') ?st1)) = entries ?st1 @ [gmail_entry t2]"
    by (rule add_gmail)
  with 1 show ?thesis by (simp add: two_adds_def)
qed

lemma four_emoji_facts:
  "length four_emoji = 8" "scalars (map unat four_emoji) = [0x1F600, 0x1F600, 0x1F600, 0x1F600]"
  "well_formed four_emoji"
  by (simp_all add: four_emoji_def well_formed_def is_high_def is_low_def)

lemma encode_four_emoji:
  "TextEncoder_encode four_emoji =
     [0xF0, 0x9F, 0x98, 0x80, 0xF0, 0x9F, 0x98, 0x80, 0xF0, 0x9F, 0x98, 0x80,
      0xF0, 0x9F, 0x98, 0x80]"
  by (simp add: TextEncoder_encode_def four_emoji_facts utf8_of_def)

lemma four_emoji_hash:
  "base64 (fresh_salt zero_entropy @ fresh_salt zero_entropy @
     [0xF0, 0x9F, 0x98, 0x80, 0xF0, 0x9F, 0x98, 0x80, 0xF0, 0x9F, 0x98, 0x80,
      0xF0, 0x9F, 0x98, 0x80])
   = js ''AAAAAAAAAAAAAAAAAAAAAAAAAAAAAAAAAAAAAAAAAADwn5iA8J+YgPCfmIDwn5iA''"
  by (simp add: fresh_zero base64_def b64_char_def js_def replicate_num)

lemma hashPassword_four_emoji:
  "hashPassword demo_host zero_entropy four_emoji None
     = Inr (js ''AAAAAAAAAAAAAAAAAAAAAAAAAAAAAAAAAAAAAAAAAADwn5iA8J+YgPCfmIDwn5iA'')"
  by (simp add: hashPassword_eq demo_host_def encode_four_emoji four_emoji_hash)

lemma new_email:
  "demo_users (js ''c@x.com'') = None" "\<not> inherited_property (js ''c@x.com'')"
  by (simp_all add: demo_users_def inherited_property_def js_def)

text \<open>
  Additions whose readings of \<open>Date.now()\<close> are pairwise distinct and are not ids of
  the vault leave pairwise distinct ids pairwise distinct.
\<close>

lemma ids_distinct_of_distinct_times:
  "distinct (map entry_id (entries st)) \<and> distinct (map request_time rs) \<and>
   list_all (\<lambda>r. toString (request_time r) \<notin> entry_id ` set (entries st)) rs \<longrightarrow>
   distinct (map entry_id (entries (add_all H st rs)))"
proof (induction rs arbitrary: st)
  case Nil
  then show ?case by simp
next
  case (Cons r rs)
  obtain rnd now isoTime name uname pw where r: "r = (rnd, now, isoTime, name, uname, pw)"
    by (cases r) auto
  let ?st' = "fst (handleAddEntry H rnd now isoTime name uname pw st)"
  show ?case
  proof
    assume a: "distinct (map entry_id (entries st)) \<and> distinct (map request_time (r # rs)) \<and>
      list_all (\<lambda>r. toString (request_time r) \<notin> entry_id ` set (entries st)) (r # rs)"
    then have fresh: "toString now \<notin> entry_id ` set (entries st)"
      and others: "\<forall>q \<in> set rs. request_time q \<noteq> now"
      and rest: "list_all (\<lambda>r. toString (request_time r) \<notin> entry_id ` set (entries st)) rs"
      by (auto simp: r request_time_def)
    have ids: "entry_id ` set (entries ?st') \<subseteq> insert (toString now) (entry_id ` set (entries st))"
      using handleAddEntry_entries[of H rnd now isoTime name uname pw st] by auto
    have d: "distinct (map entry_id (entries ?st'))"
      using handleAddEntry_entries[of H rnd now isoTime name uname pw st] a fresh by auto
    have "list_all (\<lambda>r. toString (request_time r) \<notin> entry_id ` set (entries ?st')) rs"
      unfolding list_all_iff
    proof
      fix q assume q: "q \<in> set rs"
      with others have "toString (request_time q) \<noteq> toString now" using toString_inj by blast
      moreover from rest q have "toString (request_time q) \<notin> entry_id ` set (entries st)"
        by (simp add: list_all_iff)
      ultimately show "toString (request_time q) \<notin> entry_id ` set (entries ?st')"
        using ids by blast
    qed
    with d a have "distinct (map entry_id (entries (add_all H ?st' rs)))"
      using Cons.IH[of ?st'] by simp
    then show "distinct (map entry_id (entries (add_all H st (r # rs))))" by (simp add: r)
  qed
qed

lemma ids_distinct_example:
  "distinct (map entry_id (entries demo_vault)) \<and>
   distinct (map request_time (two_adds 1000 1001)) \<and>
   list_all (\<lambda>r. toString (request_time r) \<notin> entry_id ` set (entries demo_vault))
     (two_adds 1000 1001) \<and>
   map entry_id (entries (add_all demo_host demo_vault (two_adds 1000 1001)))
     = [js ''1'', js ''1000'', js ''1001''] \<and>
   distinct (map entry_id (entries (add_all demo_host demo_vault (two_adds 1000 1001))))"
proof -
  have e: "entries demo_vault = [demo_entry]" "entry_id demo_entry = js ''1''"
    "toLowerCase demo_host (platform demo_entry) = js ''github''"
    by (simp_all add: demo_vault_def demo_entry_def lower_ascii)
  have h: "distinct (map entry_id (entries demo_vault))"
    "distinct (map request_time (two_adds 1000 1001))"
    "list_all (\<lambda>r. toString (request_time r) \<notin> entry_id ` set (entries demo_vault))
       (two_adds 1000 1001)"
    by (simp_all add: e two_adds_def request_time_def toString_small demo_ids)
  have "entries (add_all demo_host demo_vault (two_adds 1000 1001)) =
      entries demo_vault @ [twitter_entry 1000, gmail_entry 1001]"
    by (rule add_all_two_adds) (simp add: e lower_more)
  then have m: "map entry_id (entries (add_all demo_host demo_vault (two_adds 1000 1001)))
     = [js ''1'', js ''1000'', js ''1001'']"
    by (simp add: e twitter_entry_def gmail_entry_def toString_small)
  from ids_distinct_of_distinct_times[of demo_vault "two_adds 1000 1001" demo_host]
  show ?thesis using h m by simp
qed

lemma logout_without_interleaving:
  "(list_all (\<lambda>ev. \<not> is_logged_in_message ev) evs \<longrightarrow>
      bg_getPasswordForDomain H (foldl bg_step (handleVaultUpdate user_logged_out b) evs) domain
        = None) \<and>
   (list_all (\<lambda>ev. \<not> is_Login ev) vevs \<longrightarrow>
      getPasswordForDomain H (foldl (vault_step H) (fst (handleLogout st)) vevs) domain = None)"
proof (intro conjI impI)
  assume "list_all (\<lambda>ev. \<not> is_logged_in_message ev) evs"
  then have "\<not> isUserLoggedIn (foldl bg_step (handleVaultUpdate user_logged_out b) evs)"
    by (rule bg_run_logged_out)
      (simp_all add: stored_logged_out_def logged_out_first_def logged_out_second_def)
  then show "bg_getPasswordForDomain H (foldl bg_step (handleVaultUpdate user_logged_out b) evs)
      domain = None"
    by (simp add: bg_getPasswordForDomain_def)
next
  assume "list_all (\<lambda>ev. \<not> is_Login ev) vevs"
  then have "currentUser (foldl (vault_step H) (fst (handleLogout st)) vevs) = None"
    by (rule vault_run_currentUser) (simp add: handleLogout_def)
  then show "getPasswordForDomain H (foldl (vault_step H) (fst (handleLogout st)) vevs) domain
      = None"
    by (simp add: getPasswordForDomain_def)
qed

section \<open>The claims\<close>

text \<open>
  Claim C1, amended. Let AES-GCM decrypt what it encrypted. For every password and every
  well-formed plaintext (no surrogate outside a pair) that does not begin with the byte
  order mark U+FEFF: when \<open>encrypt\<close> returns an envelope, \<open>decrypt\<close> of that envelope with
  the same password returns the plaintext.
\<close>

theorem encrypt_decrypt_roundtrip:
  assumes "aead_correct H" and "well_formed P" and "\<not> prefix [0xFEFF] P"
    and "encrypt H rnd P W = Inr env"
  shows "decrypt H env W = Inr P"
  using decrypt_encrypt[OF assms(1,4)] TextDecoder_TextEncoder[OF assms(2,3)] by simp

theorem encrypt_decrypt_roundtrip_witness:
  "aead_correct demo_host \<and> well_formed (js ''[]'') \<and> \<not> prefix [0xFEFF] (js ''[]'') \<and>
   encrypt demo_host zero_entropy (js ''[]'') (js ''pw'') = Inr demo_envelope \<and>
   decrypt demo_host demo_envelope (js ''pw'') = Inr (js ''[]'')"
proof -
  have w: "well_formed (js ''[]'')"
    by (simp add: well_formed_def js_def is_high_def is_low_def)
  have p: "\<not> prefix [0xFEFF] (js ''[]'')" by (simp add: js_def)
  from encrypt_decrypt_roundtrip[OF aead_correct_demo w p encrypt_demo_envelope]
  show ?thesis using w p by (simp add: aead_correct_demo encrypt_demo_envelope)
qed

theorem roundtrip_counterexample:
  "aead_correct demo_host \<and>
   encrypt demo_host zero_entropy [0xFEFF] (js ''pw'') = Inr bom_envelope \<and>
   decrypt demo_host bom_envelope (js ''pw'') = Inr [] \<and>
   decrypt demo_host bom_envelope (js ''pw'') \<noteq> Inr [0xFEFF]"
proof -
  have "decrypt demo_host bom_envelope (js ''pw'')
      = Inr (TextDecoder_decode (TextEncoder_encode [0xFEFF]))"
    using aead_correct_demo encrypt_bom_envelope by (rule decrypt_encrypt)
  moreover have "TextDecoder_decode (TextEncoder_encode [0xFEFF]) = []"
    by (simp add: encode_ascii TextDecoder_decode_def)
  ultimately show ?thesis by (simp add: aead_correct_demo encrypt_bom_envelope)
qed

text \<open>
  Claim C2, amended. \<open>verifyPassword\<close> accepts the password that \<open>hashPassword\<close> hashed.
  It rejects another password when the bits derived from that password under the stored
  salt are not the bits derived from the hashed password (a derivation that fails
  included), and it accepts it when they are the same bits.
\<close>

theorem verifyPassword_hashPassword:
  assumes "hashPassword H rnd W1 None = Inr stored"
  shows "verifyPassword H rnd' W1 stored = Inr True \<and>
    (pbkdf2_deriveBits H (TextEncoder_encode W2) (fresh_salt rnd) iterations 256 \<noteq>
       pbkdf2_deriveBits H (TextEncoder_encode W1) (fresh_salt rnd) iterations 256 \<longrightarrow>
       verifyPassword H rnd' W2 stored = Inr False) \<and>
    (pbkdf2_deriveBits H (TextEncoder_encode W2) (fresh_salt rnd) iterations 256 =
       pbkdf2_deriveBits H (TextEncoder_encode W1) (fresh_salt rnd) iterations 256 \<longrightarrow>
       verifyPassword H rnd' W2 stored = Inr True)"
proof -
  from assms obtain h where
    h: "pbkdf2_deriveBits H (TextEncoder_encode W1) (fresh_salt rnd) iterations 256 = Some h"
    and s: "stored = base64 (fresh_salt rnd @ h)"
    by (rule hashPassword_Inr)
  have t: "\<And>W. verifyPassword_try H rnd' W stored =
    (case pbkdf2_deriveBits H (TextEncoder_encode W) (fresh_salt rnd) iterations 256 of
       None \<Rightarrow> Inl OperationError
     | Some h' \<Rightarrow> Inr (h' = h))"
    unfolding s by (rule verifyPassword_try_base64) (rule length_fresh)
  have v: "\<And>W. verifyPassword H rnd' W stored =
    Inr (pbkdf2_deriveBits H (TextEncoder_encode W) (fresh_salt rnd) iterations 256 = Some h)"
    by (simp add: verifyPassword_def t split: option.splits)
  show ?thesis by (simp add: v h)
qed

theorem verifyPassword_hashPassword_witness:
  "hashPassword demo_host zero_entropy (js ''correcthorse1'') None
     = Inr (hashedPassword demo_user) \<and>
   verifyPassword demo_host zero_entropy (js ''correcthorse1'') (hashedPassword demo_user)
     = Inr True \<and>
   pbkdf2_deriveBits demo_host (TextEncoder_encode (js ''short'')) (fresh_salt zero_entropy)
       iterations 256 \<noteq>
     pbkdf2_deriveBits demo_host (TextEncoder_encode (js ''correcthorse1''))
       (fresh_salt zero_entropy) iterations 256 \<and>
   verifyPassword demo_host zero_entropy (js ''short'') (hashedPassword demo_user)
     = Inr False \<and>
   hashPassword demo_host zero_entropy [0xD800] None
     = Inr (js ''AAAAAAAAAAAAAAAAAAAAAAAAAAAAAAAAAAAAAAAAAADvv70='') \<and>
   pbkdf2_deriveBits demo_host (TextEncoder_encode [0xFFFD]) (fresh_salt zero_entropy)
       iterations 256 =
     pbkdf2_deriveBits demo_host (TextEncoder_encode [0xD800]) (fresh_salt zero_entropy)
       iterations 256 \<and>
   verifyPassword demo_host zero_entropy [0xFFFD]
       (js ''AAAAAAAAAAAAAAAAAAAAAAAAAAAAAAAAAAAAAAAAAADvv70='') = Inr True"
proof -
  have h: "hashPassword demo_host zero_entropy (js ''correcthorse1'') None
      = Inr (hashedPassword demo_user)"
    "hashPassword demo_host zero_entropy [0xD800] None
      = Inr (js ''AAAAAAAAAAAAAAAAAAAAAAAAAAAAAAAAAAAAAAAAAADvv70='')"
    by (simp_all add: hashPassword_eq demo_host_def encode_ascii demo_hashes)
  have d: "pbkdf2_deriveBits demo_host (TextEncoder_encode (js ''short''))
        (fresh_salt zero_entropy) iterations 256 \<noteq>
      pbkdf2_deriveBits demo_host (TextEncoder_encode (js ''correcthorse1''))
        (fresh_salt zero_entropy) iterations 256"
    "pbkdf2_deriveBits demo_host (TextEncoder_encode [0xFFFD]) (fresh_salt zero_entropy)
        iterations 256 =
      pbkdf2_deriveBits demo_host (TextEncoder_encode [0xD800]) (fresh_salt zero_entropy)
        iterations 256"
    by (simp_all add: demo_host_def encode_ascii)
  from verifyPassword_hashPassword[OF h(1), of zero_entropy "js ''short''"]
    verifyPassword_hashPassword[OF h(2), of zero_entropy "[0xFFFD]"]
  show ?thesis using h d by simp
qed

theorem verifyPassword_counterexample:
  "[0xD800] \<noteq> [0xFFFD :: 16 word] \<and>
   TextEncoder_encode [0xD800] = TextEncoder_encode [0xFFFD] \<and>
   hashPassword demo_host zero_entropy [0xD800] None
     = Inr (js ''AAAAAAAAAAAAAAAAAAAAAAAAAAAAAAAAAAAAAAAAAADvv70='') \<and>
   verifyPassword demo_host zero_entropy [0xFFFD]
       (js ''AAAAAAAAAAAAAAAAAAAAAAAAAAAAAAAAAAAAAAAAAADvv70='') = Inr True"
proof -
  have "hashPassword demo_host zero_entropy [0xD800] None
     = Inr (js ''AAAAAAAAAAAAAAAAAAAAAAAAAAAAAAAAAAAAAAAAAADvv70='')"
    by (simp add: hashPassword_eq demo_host_def encode_ascii demo_hashes)
  moreover have "verifyPassword demo_host zero_entropy [0xFFFD]
       (js ''AAAAAAAAAAAAAAAAAAAAAAAAAAAAAAAAAAAAAAAAAADvv70='') = Inr True"
    unfolding demo_hashes(3)[symmetric] verifyPassword_demo by (simp add: encode_ascii)
  ultimately show ?thesis by (simp add: encode_ascii)
qed

text \<open>
  Claim C3, amended. For a hostname whose lower-cased form has \<open>www.\<close> at its start or
  nowhere, both matchers lower-case the hostname, strip the leading \<open>www.\<close> and select
  the first entry in list order whose lower-cased platform, or that platform followed
  by \<open>.com\<close>, contains the normalized hostname or is contained in it; they return the
  credentials of that entry, and nothing when no entry passes or nobody is logged in.
\<close>

theorem domain_matcher_first_match:
  assumes "prefix (js ''www.'') (toLowerCase H domain) \<or>
           \<not> str_includes (toLowerCase H domain) (js ''www.'')"
  shows "getPasswordForDomain H st domain =
           (if currentUser st = None then None
            else map_option vault_credentials
                   (spec_match H (entries st) (toLowerCase H domain))) \<and>
         bg_getPasswordForDomain H b domain =
           (if \<not> isUserLoggedIn b then None
            else map_option bg_credentials
                   (spec_match H (passwordData b) (toLowerCase H domain)))"
  unfolding getPasswordForDomain_find bg_getPasswordForDomain_find spec_match_def
    normalize_domain_leading[OF assms] by simp

theorem domain_matcher_first_match_witness:
  "prefix (js ''www.'') (toLowerCase demo_host (js ''www.github.com'')) \<and>
   getPasswordForDomain demo_host demo_vault (js ''www.github.com'')
     = Some (vault_credentials demo_entry) \<and>
   bg_getPasswordForDomain demo_host demo_background (js ''www.github.com'')
     = Some (bg_credentials demo_entry) \<and>
   \<not> str_includes (toLowerCase demo_host (js ''github.com'')) (js ''www.'') \<and>
   getPasswordForDomain demo_host demo_vault (js ''github.com'')
     = Some (vault_credentials demo_entry) \<and>
   bg_getPasswordForDomain demo_host demo_background (js ''github.com'')
     = Some (bg_credentials demo_entry) \<and>
   \<not> str_includes (toLowerCase demo_host (js ''example.com'')) (js ''www.'') \<and>
   getPasswordForDomain demo_host demo_vault (js ''example.com'') = None \<and>
   bg_getPasswordForDomain demo_host demo_background (js ''example.com'') = None"
proof -
  have h: "prefix (js ''www.'') (toLowerCase demo_host (js ''www.github.com''))"
    "\<not> str_includes (toLowerCase demo_host (js ''github.com'')) (js ''www.'')"
    "\<not> str_includes (toLowerCase demo_host (js ''example.com'')) (js ''www.'')"
    unfolding lower_ascii by (simp_all add: js_def)
  have s: "currentUser demo_vault \<noteq> None" "entries demo_vault = [demo_entry]"
    "isUserLoggedIn demo_background" "passwordData demo_background = [demo_entry]"
    by (simp_all add: demo_vault_def demo_background_def)
  from domain_matcher_first_match[of demo_host "js ''www.github.com''" demo_vault demo_background]
    domain_matcher_first_match[of demo_host "js ''github.com''" demo_vault demo_background]
    domain_matcher_first_match[of demo_host "js ''example.com''" demo_vault demo_background]
  show ?thesis
    using h s by (simp add: spec_match_def lower_ascii demo_strip demo_matches)
qed

theorem domain_matcher_counterexample:
  "spec_match demo_host [awww_entry] (js ''awww.com'') = Some awww_entry \<and>
   bg_getPasswordForDomain demo_host (demo_background\<lparr>passwordData := [awww_entry]\<rparr>)
     (js ''awww.com'') = None \<and>
   getPasswordForDomain demo_host (demo_vault\<lparr>entries := [awww_entry]\<rparr>) (js ''awww.com'')
     = None"
  by (simp add: spec_match_def demo_strip demo_matches bg_getPasswordForDomain_find
      getPasswordForDomain_find demo_normalize demo_background_def demo_vault_def)

text \<open>
  Claim C4, amended. When the background service is logged in and the domain query finds
  a record, the result of the query and the autofill message carry the platform and the
  password of that record and no username; the query of the page carries the username
  too. When no record matches or nobody is logged in, there is no result and no message.
\<close>

theorem autofill_result:
  "(isUserLoggedIn b \<and>
      find (domain_matches H (normalize_domain H domain)) (passwordData b) = Some e \<longrightarrow>
      bg_getPasswordForDomain H b domain =
        Some \<lparr>cred_platform = platform e, cred_username = None, cred_password = password e\<rparr> \<and>
      requestAutofill H b domain tabId =
        Some (tabId, \<lparr>cred_platform = platform e, cred_username = None,
                       cred_password = password e\<rparr>)) \<and>
   (\<not> isUserLoggedIn b \<or>
      find (domain_matches H (normalize_domain H domain)) (passwordData b) = None \<longrightarrow>
      bg_getPasswordForDomain H b domain = None \<and>
      requestAutofill H b domain tabId = None) \<and>
   (currentUser st \<noteq> None \<and>
      find (domain_matches H (normalize_domain H domain)) (entries st) = Some e' \<longrightarrow>
      getPasswordForDomain H st domain =
        Some \<lparr>cred_platform = platform e', cred_username = Some (username e'),
              cred_password = password e'\<rparr>) \<and>
   (currentUser st = None \<or>
      find (domain_matches H (normalize_domain H domain)) (entries st) = None \<longrightarrow>
      getPasswordForDomain H st domain = None)"
  by (auto simp: getPasswordForDomain_find bg_getPasswordForDomain_find requestAutofill_def
      vault_credentials_def bg_credentials_def)

theorem autofill_result_witness:
  "isUserLoggedIn demo_background \<and>
   find (domain_matches demo_host (normalize_domain demo_host (js ''github.com'')))
     (passwordData demo_background) = Some demo_entry \<and>
   bg_getPasswordForDomain demo_host demo_background (js ''github.com'')
     = Some \<lparr>cred_platform = js ''Github'', cred_username = None,
             cred_password = js ''s3cret''\<rparr> \<and>
   requestAutofill demo_host demo_background (js ''github.com'') 7
     = Some (7, \<lparr>cred_platform = js ''Github'', cred_username = None,
                 cred_password = js ''s3cret''\<rparr>) \<and>
   find (domain_matches demo_host (normalize_domain demo_host (js ''example.com'')))
     (passwordData demo_background) = None \<and>
   bg_getPasswordForDomain demo_host demo_background (js ''example.com'') = None \<and>
   requestAutofill demo_host demo_background (js ''example.com'') 7 = None \<and>
   \<not> isUserLoggedIn (demo_background\<lparr>isUserLoggedIn := False\<rparr>) \<and>
   bg_getPasswordForDomain demo_host (demo_background\<lparr>isUserLoggedIn := False\<rparr>)
     (js ''github.com'') = None \<and>
   requestAutofill demo_host (demo_background\<lparr>isUserLoggedIn := False\<rparr>)
     (js ''github.com'') 7 = None \<and>
   currentUser demo_vault \<noteq> None \<and>
   find (domain_matches demo_host (normalize_domain demo_host (js ''github.com'')))
     (entries demo_vault) = Some demo_entry \<and>
   getPasswordForDomain demo_host demo_vault (js ''github.com'')
     = Some \<lparr>cred_platform = js ''Github'', cred_username = Some (js ''octocat''),
             cred_password = js ''s3cret''\<rparr> \<and>
   find (domain_matches demo_host (normalize_domain demo_host (js ''example.com'')))
     (entries demo_vault) = None \<and>
   getPasswordForDomain demo_host demo_vault (js ''example.com'') = None \<and>
   currentUser locked_vault = None \<and>
   getPasswordForDomain demo_host locked_vault (js ''github.com'') = None"
proof -
  have s: "currentUser demo_vault \<noteq> None" "entries demo_vault = [demo_entry]"
    "isUserLoggedIn demo_background" "passwordData demo_background = [demo_entry]"
    "currentUser locked_vault = None"
    by (simp_all add: demo_vault_def demo_background_def locked_vault_def)
  have e: "platform demo_entry = js ''Github''" "username demo_entry = js ''octocat''"
    "password demo_entry = js ''s3cret''"
    by (simp_all add: demo_entry_def)
  from autofill_result[of demo_background demo_host "js ''github.com''" demo_entry 7
      demo_vault demo_entry]
    autofill_result[of demo_background demo_host "js ''example.com''" demo_entry 7
      demo_vault demo_entry]
    autofill_result[of "demo_background\<lparr>isUserLoggedIn := False\<rparr>" demo_host
      "js ''github.com''" demo_entry 7 locked_vault demo_entry]
  show ?thesis using s by (simp add: demo_normalize demo_matches e)
qed

theorem autofill_counterexample:
  "username demo_entry = js ''octocat'' \<and>
   map_option cred_username
     (bg_getPasswordForDomain demo_host demo_background (js ''github.com'')) = Some None \<and>
   map_option (cred_username \<circ> snd)
     (requestAutofill demo_host demo_background (js ''github.com'') 7) = Some None"
  by (simp add: bg_getPasswordForDomain_find requestAutofill_def demo_background_def
      demo_normalize demo_matches bg_credentials_def)
    (simp add: demo_entry_def)

text \<open>
  Claim C5. When the stored entry list of the current user fails to decrypt,
  \<open>loadUserEntries\<close> returns normally with the entry list reset to empty, and so it does
  when nothing is stored; a login whose password is verified then completes with the
  empty list and announces the user.
\<close>

theorem loadUserEntries_fallback:
  "(currentUser st = Some u \<and> localStorage st (js ''entries_'' @ email u) = Some env \<and>
      decrypt H env (string_of (userPassword st)) = Inl err \<longrightarrow>
      loadUserEntries H st = Inr (st\<lparr>entries := []\<rparr>)) \<and>
   (currentUser st = Some u \<and> localStorage st (js ''entries_'' @ email u) = None \<longrightarrow>
      loadUserEntries H st = Inr (st\<lparr>entries := []\<rparr>)) \<and>
   (stored_users H st = Some users \<and> users e = Some u \<and>
      verifyPassword H rnd pw (hashedPassword u) = Inr True \<and>
      localStorage st (js ''entries_'' @ email u) = Some env \<and>
      decrypt H env pw = Inl err \<longrightarrow>
      handleLogin H rnd e pw st =
        (st\<lparr>currentUser := Some u, userPassword := Some pw,
            localStorage := (localStorage st)(js ''currentUser'' \<mapsto> stringify_user H u),
            entries := []\<rparr>,
         [Notify (user_logged_in e)]))"
proof (intro conjI impI)
  assume "currentUser st = Some u \<and> localStorage st (js ''entries_'' @ email u) = Some env \<and>
      decrypt H env (string_of (userPassword st)) = Inl err"
  then show "loadUserEntries H st = Inr (st\<lparr>entries := []\<rparr>)"
    by (simp add: loadUserEntries_def loadUserEntries_try_def)
next
  assume "currentUser st = Some u \<and> localStorage st (js ''entries_'' @ email u) = None"
  then show "loadUserEntries H st = Inr (st\<lparr>entries := []\<rparr>)"
    by (simp add: loadUserEntries_def loadUserEntries_try_def)
next
  assume a: "stored_users H st = Some users \<and> users e = Some u \<and>
      verifyPassword H rnd pw (hashedPassword u) = Inr True \<and>
      localStorage st (js ''entries_'' @ email u) = Some env \<and>
      decrypt H env pw = Inl err"
  let ?st1 = "st\<lparr>currentUser := Some u, userPassword := Some pw,
      localStorage := (localStorage st)(js ''currentUser'' \<mapsto> stringify_user H u)\<rparr>"
  from a have "(case loadUserEntries_try H ?st1 of Inl x \<Rightarrow> [] | Inr es \<Rightarrow> es) = []"
    by (simp add: loadUserEntries_try_def entries_key string_of_def)
  moreover from a have "handleLogin H rnd e pw st =
      (?st1\<lparr>entries := (case loadUserEntries_try H ?st1 of Inl x \<Rightarrow> [] | Inr es \<Rightarrow> es)\<rparr>,
       [Notify (user_logged_in e)])"
    using handleLogin_success[of H st users e u rnd pw] by (simp add: Let_def)
  ultimately show "handleLogin H rnd e pw st =
        (st\<lparr>currentUser := Some u, userPassword := Some pw,
            localStorage := (localStorage st)(js ''currentUser'' \<mapsto> stringify_user H u),
            entries := []\<rparr>,
         [Notify (user_logged_in e)])"
    by simp
qed

theorem loadUserEntries_fallback_witness:
  "currentUser (demo_vault\<lparr>localStorage := localStorage locked_vault\<rparr>) = Some demo_user \<and>
   localStorage (demo_vault\<lparr>localStorage := localStorage locked_vault\<rparr>)
     (js ''entries_'' @ email demo_user) = Some demo_envelope \<and>
   decrypt demo_host demo_envelope
     (string_of (userPassword (demo_vault\<lparr>localStorage := localStorage locked_vault\<rparr>)))
     = Inl decrypt_failed \<and>
   loadUserEntries demo_host (demo_vault\<lparr>localStorage := localStorage locked_vault\<rparr>)
     = Inr (demo_vault\<lparr>localStorage := localStorage locked_vault, entries := []\<rparr>) \<and>
   localStorage demo_vault (js ''entries_'' @ email demo_user) = None \<and>
   loadUserEntries demo_host demo_vault = Inr (demo_vault\<lparr>entries := []\<rparr>) \<and>
   stored_users demo_host locked_vault = Some demo_users \<and>
   demo_users (js ''a@x.com'') = Some demo_user \<and>
   verifyPassword demo_host zero_entropy (js ''correcthorse1'') (hashedPassword demo_user)
     = Inr True \<and>
   localStorage locked_vault (js ''entries_'' @ email demo_user) = Some demo_envelope \<and>
   decrypt demo_host demo_envelope (js ''correcthorse1'') = Inl decrypt_failed \<and>
   handleLogin demo_host zero_entropy (js ''a@x.com'') (js ''correcthorse1'') locked_vault =
     (locked_vault\<lparr>currentUser := Some demo_user, userPassword := Some (js ''correcthorse1''),
        localStorage := (localStorage locked_vault)(js ''currentUser'' \<mapsto> js ''a@x.com''),
        entries := []\<rparr>,
      [Notify (user_logged_in (js ''a@x.com''))])"
proof -
  let ?st = "demo_vault\<lparr>localStorage := localStorage locked_vault\<rparr>"
  have a: "currentUser ?st = Some demo_user"
    "localStorage ?st (js ''entries_'' @ email demo_user) = Some demo_envelope"
    "decrypt demo_host demo_envelope (string_of (userPassword ?st)) = Inl decrypt_failed"
    "currentUser demo_vault = Some demo_user"
    "localStorage demo_vault (js ''entries_'' @ email demo_user) = None"
    "localStorage locked_vault (js ''entries_'' @ email demo_user) = Some demo_envelope"
    by (simp_all add: demo_vault_def locked_vault_def demo_keys string_of_def
        decrypt_demo_wrong_password)
  have u: "stringify_user demo_host demo_user = js ''a@x.com''"
    by (simp add: demo_host_def demo_user_def)
  from loadUserEntries_fallback[of ?st demo_user demo_envelope demo_host decrypt_failed
      demo_users "js ''a@x.com''" zero_entropy "js ''correcthorse1''"]
    loadUserEntries_fallback[of demo_vault demo_user demo_envelope demo_host decrypt_failed
      demo_users "js ''a@x.com''" zero_entropy "js ''correcthorse1''"]
    loadUserEntries_fallback[of locked_vault demo_user demo_envelope demo_host decrypt_failed
      demo_users "js ''a@x.com''" zero_entropy "js ''correcthorse1''"]
  show ?thesis
    using a u
    by (simp add: demo_keys demo_stored_users demo_verify decrypt_demo_wrong_password)
qed

text \<open>
  Claim C6, amended. When the three fields are not empty (the platform and the username
  after trimming) and the trimmed platform name equals the platform of an existing entry
  under case-insensitive comparison, \<open>handleAddEntry\<close> answers that an entry for this
  platform already exists and leaves the vault as it is. In particular, on a platform
  whose case mappings are the usual ones on ASCII, adding \<open>gmail\<close> after \<open>Gmail\<close> is
  refused.
\<close>

theorem handleAddEntry_duplicate:
  "(trim name \<noteq> [] \<and> trim uname \<noteq> [] \<and> pw \<noteq> [] \<and>
      (\<exists>e \<in> set (entries st). toLowerCase H (platform e) = toLowerCase H (trim name)) \<longrightarrow>
      handleAddEntry H rnd now isoTime name uname pw st =
        (st, [Alert ''An entry for this platform already exists!''])) \<and>
   (ascii_case_host H \<and> trim u1 \<noteq> [] \<and> p1 \<noteq> [] \<and> trim u2 \<noteq> [] \<and> p2 \<noteq> [] \<longrightarrow>
      handleAddEntry H r2 n2 i2 (js ''gmail'') u2 p2
          (fst (handleAddEntry H r1 n1 i1 (js ''Gmail'') u1 p1 st)) =
        (fst (handleAddEntry H r1 n1 i1 (js ''Gmail'') u1 p1 st),
         [Alert ''An entry for this platform already exists!'']))"
proof (intro conjI impI)
  assume "trim name \<noteq> [] \<and> trim uname \<noteq> [] \<and> pw \<noteq> [] \<and>
      (\<exists>e \<in> set (entries st). toLowerCase H (platform e) = toLowerCase H (trim name))"
  then show "handleAddEntry H rnd now isoTime name uname pw st =
        (st, [Alert ''An entry for this platform already exists!''])"
    by (intro handleAddEntry_dup) simp_all
next
  assume a: "ascii_case_host H \<and> trim u1 \<noteq> [] \<and> p1 \<noteq> [] \<and> trim u2 \<noteq> [] \<and> p2 \<noteq> []"
  let ?st1 = "fst (handleAddEntry H r1 n1 i1 (js ''Gmail'') u1 p1 st)"
  note g = gmail_case[of H] gmail_facts
  have "\<exists>e \<in> set (entries ?st1). toLowerCase H (platform e) = js ''gmail''"
  proof (cases "\<exists>e \<in> set (entries st). toLowerCase H (platform e) = js ''gmail''")
    case True
    then have "?st1 = st"
      using a handleAddEntry_dup[of "js ''Gmail''" u1 p1 st H r1 n1 i1] by (simp add: g)
    with True show ?thesis by simp
  next
    case False
    then have "entries ?st1 = entries st @ [\<lparr>entry_id = toString n1,
        platform = capitalizePlatform H (trim (js ''Gmail'')), username = trim u1, password = p1,
        createdAt = i1, updatedAt = None\<rparr>]"
      using a by (intro handleAddEntry_added) (simp_all add: g)
    then show ?thesis using a by (simp add: g)
  qed
  then show "handleAddEntry H r2 n2 i2 (js ''gmail'') u2 p2 ?st1 =
        (?st1, [Alert ''An entry for this platform already exists!''])"
    using a by (intro handleAddEntry_dup) (simp_all add: g)
qed

theorem handleAddEntry_duplicate_witness:
  "trim (js '' GITHUB '') \<noteq> [] \<and> trim (js ''hubber'') \<noteq> [] \<and> js ''pw'' \<noteq> [] \<and>
   demo_entry \<in> set (entries demo_vault) \<and>
   toLowerCase demo_host (platform demo_entry) = toLowerCase demo_host (trim (js '' GITHUB '')) \<and>
   handleAddEntry demo_host zero_entropy 5 demo_time (js '' GITHUB '') (js ''hubber'') (js ''pw'')
     demo_vault = (demo_vault, [Alert ''An entry for this platform already exists!'']) \<and>
   ascii_case_host demo_host \<and> trim (js ''bob'') \<noteq> [] \<and> js ''p@ss'' \<noteq> [] \<and>
   handleAddEntry demo_host zero_entropy 6 demo_time (js ''gmail'') (js ''bob'') (js ''p@ss'')
     (fst (handleAddEntry demo_host zero_entropy 5 demo_time (js ''Gmail'') (js ''bob'')
        (js ''p@ss'') empty_vault)) =
     (fst (handleAddEntry demo_host zero_entropy 5 demo_time (js ''Gmail'') (js ''bob'')
        (js ''p@ss'') empty_vault),
      [Alert ''An entry for this platform already exists!''])"
proof -
  have a: "demo_entry \<in> set (entries demo_vault)"
    "toLowerCase demo_host (platform demo_entry) = toLowerCase demo_host (trim (js '' GITHUB ''))"
    by (simp_all add: demo_vault_def demo_trims lower_ascii) (simp add: demo_entry_def lower_ascii)
  then have b: "\<exists>e \<in> set (entries demo_vault).
      toLowerCase demo_host (platform e) = toLowerCase demo_host (trim (js '' GITHUB ''))"
    by blast
  from handleAddEntry_duplicate[of "js '' GITHUB ''" "js ''hubber''" "js ''pw''" demo_vault
      demo_host zero_entropy 5 demo_time "js ''bob''" "js ''p@ss''" "js ''bob''" "js ''p@ss''"
      zero_entropy 6 demo_time zero_entropy 5 demo_time]
    handleAddEntry_duplicate[of "js '' GITHUB ''" "js ''hubber''" "js ''pw''" empty_vault
      demo_host zero_entropy 5 demo_time "js ''bob''" "js ''p@ss''" "js ''bob''" "js ''p@ss''"
      zero_entropy 6 demo_time zero_entropy 5 demo_time]
  show ?thesis using a b by (simp add: demo_trims ascii_case_host_demo)
qed

theorem handleAddEntry_counterexample:
  "demo_entry \<in> set (entries demo_vault) \<and>
   toLowerCase demo_host (platform demo_entry) = toLowerCase demo_host (js ''github'') \<and>
   handleAddEntry demo_host zero_entropy 5 demo_time (js ''github'') [] (js ''pw'') demo_vault
     = (demo_vault, [Alert ''Please fill in all fields!''])"
  by (simp add: handleAddEntry_def demo_trims demo_vault_def lower_ascii)
    (simp add: demo_entry_def lower_ascii)

text \<open>
  Claim C7. \<open>verifyPassword\<close> returns a boolean on every input, and it returns \<open>false\<close>
  when the stored text is not base64 and when the key derivation fails.
\<close>

theorem verifyPassword_never_throws:
  "(\<exists>b. verifyPassword H rnd pw storedHash = Inr b) \<and>
   (atob storedHash = None \<longrightarrow> verifyPassword H rnd pw storedHash = Inr False) \<and>
   (\<forall>text. atob storedHash = Some text \<longrightarrow>
      pbkdf2_deriveBits H (TextEncoder_encode pw) (slice 0 saltLength (charCodes text))
        iterations 256 = None \<longrightarrow>
      verifyPassword H rnd pw storedHash = Inr False)"
  by (auto simp: verifyPassword_def verifyPassword_try_def hashPassword_def Let_def
      split: sum.splits option.splits)

theorem verifyPassword_never_throws_witness:
  "atob (js ''!'') = None \<and>
   verifyPassword demo_host zero_entropy (js ''pw'') (js ''!'') = Inr False \<and>
   atob (js ''AAAA'') = Some [0, 0, 0] \<and>
   pbkdf2_deriveBits failing_host (TextEncoder_encode (js ''pw''))
     (slice 0 saltLength (charCodes [0, 0, 0])) iterations 256 = None \<and>
   verifyPassword failing_host zero_entropy (js ''pw'') (js ''AAAA'') = Inr False"
proof -
  have a: "atob (js ''!'') = None" "atob (js ''AAAA'') = Some [0, 0, 0]"
    by (simp_all add: atob_def js_def ascii_whitespace_def strip_padding_def b64_value_def)
  have d: "pbkdf2_deriveBits failing_host (TextEncoder_encode (js ''pw''))
     (slice 0 saltLength (charCodes [0, 0, 0])) iterations 256 = None"
    by (simp add: failing_host_def)
  from verifyPassword_never_throws[of demo_host zero_entropy "js ''pw''" "js ''!''"]
    verifyPassword_never_throws[of failing_host zero_entropy "js ''pw''" "js ''AAAA''"]
  show ?thesis using a d by simp
qed

text \<open>
  Claim C8. After \<open>handleLogout\<close> the query of the page returns nothing, and so does the
  query of the background service after \<open>user_logged_out\<close> when nothing runs while its
  handlers wait (\<open>logout_without_interleaving\<close>). The claim fails for the background
  service in the run \<open>raced_logout\<close>: the logout has been handled, no login has followed,
  and the service is logged in, holds the entries again and answers the domain query
  with the password.
\<close>

theorem logout_race:
  "isUserLoggedIn raced_logout \<and> passwordData raced_logout = [demo_entry] \<and>
   stored_userStatus raced_logout = Some (False, None) \<and>
   bg_getPasswordForDomain demo_host raced_logout (js ''github.com'') =
     Some \<lparr>cred_platform = js ''Github'', cred_username = None, cred_password = js ''s3cret''\<rparr>"
proof -
  have r: "raced_logout = demo_background\<lparr>userEmail := Some (js ''a@x.com''),
      stored_userStatus := Some (False, None), stored_passwordData := Some []\<rparr>"
    by (simp add: raced_logout_def constructor_def logged_out_first_def logged_out_second_def
        loadStoredData_userStatus_def loadStoredData_passwordData_def demo_background_def
        Let_def js_def)
  show ?thesis
    unfolding r
    by (simp add: bg_getPasswordForDomain_find demo_background_def demo_normalize demo_matches
        bg_credentials_def)
      (simp add: demo_entry_def)
qed

theorem logout_race_witness:
  "isUserLoggedIn raced_logout \<and> length (passwordData raced_logout) \<noteq> 0 \<and>
   bg_getPasswordForDomain demo_host raced_logout (js ''github.com'') \<noteq> None"
  using logout_race by simp

text \<open>
  Claim C9. The id of a new entry is the text of \<open>Date.now()\<close>, and nothing compares it
  with the ids of the vault: the ids stay pairwise distinct when the readings are
  pairwise distinct and new (\<open>ids_distinct_of_distinct_times\<close>). The claim fails for two
  additions that read the same millisecond: both succeed, the two entries have the same
  id, and deleting the entry of that id deletes both.
\<close>

theorem added_ids_collide:
  "last (snd (handleAddEntry demo_host zero_entropy 1000 demo_time (js ''Twitter'') (js ''bob'')
     (js ''p@ss'') empty_vault)) = Alert ''Password entry added successfully!'' \<and>
   last (snd (handleAddEntry demo_host zero_entropy 1000 demo_time (js ''Gmail'') (js ''bob'')
     (js ''p@ss'')
     (fst (handleAddEntry demo_host zero_entropy 1000 demo_time (js ''Twitter'') (js ''bob'')
        (js ''p@ss'') empty_vault)))) = Alert ''Password entry added successfully!'' \<and>
   entries (add_all demo_host empty_vault (two_adds 1000 1000))
     = [twitter_entry 1000, gmail_entry 1000] \<and>
   map entry_id (entries (add_all demo_host empty_vault (two_adds 1000 1000)))
     = [js ''1000'', js ''1000''] \<and>
   \<not> distinct (map entry_id (entries (add_all demo_host empty_vault (two_adds 1000 1000)))) \<and>
   entries (fst (handleDeleteEntry demo_host zero_entropy True (js ''1000'')
     (add_all demo_host empty_vault (two_adds 1000 1000)))) = []"
proof -
  have e: "entries empty_vault = []" by (simp add: empty_vault_def)
  let ?st1 = "fst (handleAddEntry demo_host zero_entropy 1000 demo_time (js ''Twitter'')
      (js ''bob'') (js ''p@ss'') empty_vault)"
  have 1: "entries ?st1 = [twitter_entry 1000]"
    "last (snd (handleAddEntry demo_host zero_entropy 1000 demo_time (js ''Twitter'') (js ''bob'')
       (js ''p@ss'') empty_vault)) = Alert ''Password entry added successfully!''"
    using add_twitter[of empty_vault zero_entropy 1000] by (simp_all add: e)
  then have "\<forall>e \<in> set (entries ?st1). toLowerCase demo_host (platform e) \<noteq> js ''gmail''"
    by (simp add: twitter_entry_def lower_more)
  then have 2: "last (snd (handleAddEntry demo_host zero_entropy 1000 demo_time (js ''Gmail'')
      (js ''bob'') (js ''p@ss'') ?st1)) = Alert ''Password entry added successfully!''"
    by (rule add_gmail)
  have "entries (add_all demo_host empty_vault (two_adds 1000 1000)) =
      entries empty_vault @ [twitter_entry 1000, gmail_entry 1000]"
    by (rule add_all_two_adds) (simp add: e)
  then have 3: "entries (add_all demo_host empty_vault (two_adds 1000 1000)) =
      [twitter_entry 1000, gmail_entry 1000]"
    by (simp add: e)
  have 4: "entry_id (twitter_entry 1000) = js ''1000''" "entry_id (gmail_entry 1000) = js ''1000''"
    by (simp_all add: twitter_entry_def gmail_entry_def toString_small)
  have 5: "entries (fst (handleDeleteEntry demo_host zero_entropy True (js ''1000'')
      (add_all demo_host empty_vault (two_adds 1000 1000)))) = []"
    by (simp add: handleDeleteEntry_def case_prod_beta saveUserEntries_fields 3 4)
  from 1 2 5 show ?thesis by (simp add: 3 4)
qed

text \<open>
  Claim C10, amended. \<open>handleRegister\<close> refuses a confirmation that differs from the
  password and a password of fewer than 8 UTF-16 code units, and then leaves the vault
  and the storage as they are; \<open>handleLogin\<close> has no such test: it logs in every user
  whose password is verified. The length is not counted in characters: a password of
  four characters outside the Basic Multilingual Plane has 8 code units and is accepted.
\<close>

theorem handleRegister_rejects:
  "(pw \<noteq> confirmPassword \<longrightarrow>
      handleRegister H rnd isoTime e pw confirmPassword st =
        (st, [Alert ''Passwords do not match!''])) \<and>
   (pw = confirmPassword \<and> length pw < 8 \<longrightarrow>
      handleRegister H rnd isoTime e pw confirmPassword st =
        (st, [Alert ''Password must be at least 8 characters long!''])) \<and>
   (stored_users H st = Some users \<and> users e = Some u \<and>
      verifyPassword H rnd pw (hashedPassword u) = Inr True \<longrightarrow>
      currentUser (fst (handleLogin H rnd e pw st)) = Some u \<and>
      userPassword (fst (handleLogin H rnd e pw st)) = Some pw)"
proof (intro conjI impI)
  assume "stored_users H st = Some users \<and> users e = Some u \<and>
      verifyPassword H rnd pw (hashedPassword u) = Inr True"
  then show "currentUser (fst (handleLogin H rnd e pw st)) = Some u"
    "userPassword (fst (handleLogin H rnd e pw st)) = Some pw"
    using handleLogin_success[of H st users e u rnd pw] by (simp_all add: Let_def)
qed (auto simp: handleRegister_def)

theorem handleRegister_rejects_witness:
  "js ''correcthorse1'' \<noteq> js ''correcthorse2'' \<and>
   handleRegister demo_host zero_entropy demo_time (js ''c@x.com'') (js ''correcthorse1'')
     (js ''correcthorse2'') locked_vault = (locked_vault, [Alert ''Passwords do not match!'']) \<and>
   length (js ''short'') < 8 \<and>
   handleRegister demo_host zero_entropy demo_time (js ''c@x.com'') (js ''short'') (js ''short'')
     locked_vault
     = (locked_vault, [Alert ''Password must be at least 8 characters long!'']) \<and>
   stored_users demo_host locked_vault = Some demo_users \<and>
   demo_users (js ''b@x.com'') = Some short_user \<and>
   verifyPassword demo_host zero_entropy (js ''short'') (hashedPassword short_user) = Inr True \<and>
   currentUser (fst (handleLogin demo_host zero_entropy (js ''b@x.com'') (js ''short'')
     locked_vault)) = Some short_user \<and>
   userPassword (fst (handleLogin demo_host zero_entropy (js ''b@x.com'') (js ''short'')
     locked_vault)) = Some (js ''short'')"
proof -
  have n: "js ''correcthorse1'' \<noteq> js ''correcthorse2''" "length (js ''short'') < 8"
    by (simp_all add: js_def)
  from handleRegister_rejects[of "js ''correcthorse1''" "js ''correcthorse2''" demo_host
      zero_entropy demo_time "js ''c@x.com''" locked_vault demo_users short_user]
    handleRegister_rejects[of "js ''short''" "js ''short''" demo_host
      zero_entropy demo_time "js ''c@x.com''" locked_vault demo_users short_user]
    handleRegister_rejects[of "js ''short''" "js ''short''" demo_host
      zero_entropy demo_time "js ''b@x.com''" locked_vault demo_users short_user]
  show ?thesis using n by (simp add: demo_stored_users demo_verify)
qed

theorem handleRegister_counterexample:
  "length (scalars (map unat four_emoji)) = 4 \<and> well_formed four_emoji \<and>
   length four_emoji = 8 \<and>
   handleRegister demo_host zero_entropy demo_time (js ''c@x.com'') four_emoji four_emoji
       locked_vault =
     (locked_vault\<lparr>localStorage := (localStorage locked_vault)
        (js ''users'' \<mapsto>
           stringify_users demo_host
             (demo_users(js ''c@x.com'' \<mapsto>
                \<lparr>email = js ''c@x.com'',
                 hashedPassword =
                   js ''AAAAAAAAAAAAAAAAAAAAAAAAAAAAAAAAAAAAAAAAAADwn5iA8J+YgPCfmIDwn5iA'',
                 createdAt_user = demo_time\<rparr>)))\<rparr>,
      [Alert ''Registration successful! Please login.''])"
  by (simp add: four_emoji_facts handleRegister_def demo_stored_users new_email
      hashPassword_four_emoji)

end
